theory Spec2Isabelle
  imports
    Main
    "HOL-Library.Char_ord"
    "HOL-Library.List_Lexorder"
    "HOL-Library.Sublist"
    "HOL-Library.Multiset"
    "HOL-Library.AList"
begin

section \<open>JavaScript strings and values\<close>

text \<open>
  A JavaScript string is modelled as a \<^typ>\<open>string\<close>, one \<^typ>\<open>char\<close> per code unit.
  The default comparison of \<^verbatim>\<open>Array.prototype.sort\<close> orders strings by code units, a proper
  prefix first; that is the lexicographic order on \<^typ>\<open>char list\<close>.
\<close>

text \<open>\<^verbatim>\<open>Array.prototype.join\<close> on an array of strings.\<close>

fun join :: "string \<Rightarrow> string list \<Rightarrow> string" where
  "join sep [] = []"
| "join sep [x] = x"
| "join sep (x # y # ys) = x @ sep @ join sep (y # ys)"

text \<open>\<^verbatim>\<open>String.prototype.includes\<close>: the argument occurs somewhere as a contiguous substring.\<close>

fun includes_str :: "string \<Rightarrow> string \<Rightarrow> bool" where
  "includes_str [] sub = (sub = [])"
| "includes_str (c # cs) sub = (prefix sub (c # cs) \<or> includes_str cs sub)"

text \<open>Decimal numeral of a natural number, as template literals and \<^verbatim>\<open>JSON.stringify\<close> print it.\<close>

definition digit :: "nat \<Rightarrow> char" where
  "digit n = ''0123456789'' ! n"

fun decimal :: "nat \<Rightarrow> string" where
  "decimal n = (if n < 10 then [digit n] else decimal (n div 10) @ [digit (n mod 10)])"

declare decimal.simps [simp del]

text \<open>
  The values a query-string parser puts into \<^verbatim>\<open>req.query\<close>: strings, arrays (a repeated
  parameter) and nested objects. A template literal converts them with \<^verbatim>\<open>ToString\<close>: an array
  joins its elements with a comma, a plain object prints as \<^verbatim>\<open>[object Object]\<close>.
\<close>

datatype qvalue =
    QString string
  | QArray "qvalue list"
  | QObject "(string \<times> qvalue) list"

fun toString :: "qvalue \<Rightarrow> string" where
  "toString (QString s) = s"
| "toString (QArray vs) = join '','' (map toString vs)"
| "toString (QObject fs) = ''[object Object]''"

text \<open>
  The payloads handed to \<^verbatim>\<open>res.json\<close>: JSON values whose numbers are integers (in the range
  that JavaScript prints digit by digit), and BigInt as the value that \<^verbatim>\<open>JSON.stringify\<close>
  refuses with a TypeError. An object is the list of its own properties.
\<close>

datatype jsval =
    JNull
  | JBool bool
  | JNum int
  | JStr string
  | JArr "jsval list"
  | JObj "(string \<times> jsval) list"
  | JBigInt int

text \<open>
  The errors that are thrown: by the language, by the Redis client, and by the database
  layer (a Mongoose validation error with its messages, a server error with its code).
\<close>

datatype error =
    TypeError
  | SyntaxError
  | RedisError
  | ValidationError "string list"
  | MongoServerError nat
  | OtherError

subsection \<open>\<^verbatim>\<open>JSON.stringify\<close>\<close>

definition hexdigit :: "nat \<Rightarrow> char" where
  "hexdigit n = ''0123456789abcdef'' ! n"

definition escape :: "char \<Rightarrow> string" where
  "escape c =
     (if c = CHR 0x22 then [CHR 0x5C, CHR 0x22]
      else if c = CHR 0x5C then [CHR 0x5C, CHR 0x5C]
      else if c = CHR 0x08 then [CHR 0x5C, CHR ''b'']
      else if c = CHR 0x0C then [CHR 0x5C, CHR ''f'']
      else if c = CHR 0x0A then [CHR 0x5C, CHR ''n'']
      else if c = CHR 0x0D then [CHR 0x5C, CHR ''r'']
      else if c = CHR 0x09 then [CHR 0x5C, CHR ''t'']
      else if (of_char c :: nat) < 32
        then [CHR 0x5C, CHR ''u'', CHR ''0'', CHR ''0'',
              hexdigit (of_char c div 16), hexdigit (of_char c mod 16)]
      else [c])"

definition quote :: "string \<Rightarrow> string" where
  "quote s = [CHR 0x22] @ concat (map escape s) @ [CHR 0x22]"

definition showInt :: "int \<Rightarrow> string" where
  "showInt i = (if i < 0 then ''-'' @ decimal (nat (- i)) else decimal (nat i))"

text \<open>\<^const>\<open>None\<close> is the TypeError thrown on a BigInt anywhere in the value.\<close>

fun JSON_stringify :: "jsval \<Rightarrow> string option" where
  "JSON_stringify JNull = Some ''null''"
| "JSON_stringify (JBool b) = Some (if b then ''true'' else ''false'')"
| "JSON_stringify (JNum i) = Some (showInt i)"
| "JSON_stringify (JStr s) = Some (quote s)"
| "JSON_stringify (JArr vs) =
     (case those (map JSON_stringify vs) of
        None \<Rightarrow> None
      | Some ts \<Rightarrow> Some (''['' @ join '','' ts @ '']''))"
| "JSON_stringify (JObj fs) =
     (case those (map (\<lambda>kv. map_option (\<lambda>t. quote (fst kv) @ '':'' @ t)
                                (JSON_stringify (snd kv))) fs) of
        None \<Rightarrow> None
      | Some ts \<Rightarrow> Some (''{'' @ join '','' ts @ ''}''))"
| "JSON_stringify (JBigInt i) = None"

text \<open>
  Reading the property \<^verbatim>\<open>success\<close> of a payload: a TypeError on \<^verbatim>\<open>null\<close>, the own property
  of an object, \<^verbatim>\<open>undefined\<close> (here \<^const>\<open>None\<close>) on every other value.
\<close>

fun success_of :: "jsval \<Rightarrow> error + jsval option" where
  "success_of JNull = Inl TypeError"
| "success_of (JObj fs) = Inr (map_of fs ''success'')"
| "success_of v = Inr None"

section \<open>The request descriptor and the cache key\<close>

text \<open>
  The fields of the Express request that \<^verbatim>\<open>middleware/cache.js\<close> reads. \<^verbatim>\<open>req.query\<close> is an
  object: the list of its properties. Express stores the request target as the client
  sent it, query string included, in \<^verbatim>\<open>req.originalUrl\<close>; \<^verbatim>\<open>req.url\<close> and \<^verbatim>\<open>req.path\<close> are taken
  relative to the router's mount point, \<^verbatim>\<open>req.path\<close> without the query string.
\<close>

record request =
  httpMethod :: string
  originalUrl :: "string option"
  url :: string
  path :: string
  query :: "(string \<times> qvalue) list"
  user :: "jsval option"

text \<open>\<^verbatim>\<open>generateCacheKey\<close>, cache.js lines 8 to 16.\<close>

definition baseKey :: "request \<Rightarrow> string" where
  "baseKey req =
     httpMethod req @ '':'' @
       (case originalUrl req of
          Some u \<Rightarrow> if u \<noteq> [] then u else url req
        | None \<Rightarrow> url req)"

definition queryString :: "request \<Rightarrow> string" where
  "queryString req =
     join ''&''
       (map (\<lambda>key. key @ ''='' @
               (case map_of (query req) key of
                  Some v \<Rightarrow> toString v
                | None \<Rightarrow> ''undefined''))
            (sort (map fst (query req))))"

definition generateCacheKey :: "request \<Rightarrow> string" where
  "generateCacheKey req =
     (if queryString req \<noteq> [] then baseKey req @ ''?'' @ queryString req else baseKey req)"

text \<open>
  The two requests \<^verbatim>\<open>GET /api/projects?status=all&featured=true\<close> and
  \<^verbatim>\<open>GET /api/projects?featured=true&status=all\<close>, as the router mounted at \<^verbatim>\<open>/api/projects\<close>
  receives them, and \<^verbatim>\<open>GET /api/projects?featured=true\<close>.
\<close>

definition projectsStatusFirst :: request where
  "projectsStatusFirst =
     \<lparr>httpMethod = ''GET'', originalUrl = Some ''/api/projects?status=all&featured=true'',
      url = ''/?status=all&featured=true'', path = ''/'',
      query = [(''status'', QString ''all''), (''featured'', QString ''true'')],
      user = None\<rparr>"

definition projectsFeaturedFirst :: request where
  "projectsFeaturedFirst =
     \<lparr>httpMethod = ''GET'', originalUrl = Some ''/api/projects?featured=true&status=all'',
      url = ''/?featured=true&status=all'', path = ''/'',
      query = [(''featured'', QString ''true''), (''status'', QString ''all'')],
      user = None\<rparr>"

definition projectsFeatured :: request where
  "projectsFeatured =
     \<lparr>httpMethod = ''GET'', originalUrl = Some ''/api/projects?featured=true'',
      url = ''/?featured=true'', path = ''/'',
      query = [(''featured'', QString ''true'')],
      user = None\<rparr>"

section \<open>The Redis server and its client\<close>

text \<open>
  The glob patterns of the \<^verbatim>\<open>KEYS\<close> command: \<^verbatim>\<open>*\<close> matches any run of characters, \<^verbatim>\<open>?\<close> one
  character, \<^verbatim>\<open>[...]\<close> a class of characters (with ranges, negated after \<^verbatim>\<open>^\<close>), and a
  backslash takes the next character literally. A pattern is first read into tokens; the
  first argument of \<^term>\<open>tokenize\<close> holds the class being read, if any.
\<close>

datatype token = Star | AnyChar | Lit char | Class bool "(char \<times> char) list"

fun tokenize :: "(bool \<times> (char \<times> char) list) option \<Rightarrow> string \<Rightarrow> token list" where
  "tokenize None [] = []"
| "tokenize None (c # cs) =
     (if c = CHR ''*'' then Star # tokenize None cs
      else if c = CHR ''?'' then AnyChar # tokenize None cs
      else if c = CHR ''['' then
        (case cs of
           [] \<Rightarrow> tokenize (Some (False, [])) cs
         | d # ds \<Rightarrow>
             if d = CHR ''^'' then tokenize (Some (True, [])) ds
             else tokenize (Some (False, [])) cs)
      else if c = CHR 0x5C then
        (case cs of
           [] \<Rightarrow> [Lit c]
         | d # ds \<Rightarrow> Lit d # tokenize None ds)
      else Lit c # tokenize None cs)"
| "tokenize (Some (neg, rs)) [] = [Class neg rs]"
| "tokenize (Some (neg, rs)) (c # cs) =
     (if c = CHR '']'' then Class neg rs # tokenize None cs
      else if c = CHR 0x5C then
        (case cs of
           [] \<Rightarrow> tokenize (Some (neg, rs @ [(c, c)])) cs
         | d # ds \<Rightarrow> tokenize (Some (neg, rs @ [(d, d)])) ds)
      else
        (case cs of
           d # e # es \<Rightarrow>
             if d = CHR ''-'' then tokenize (Some (neg, rs @ [(min c e, max c e)])) es
             else tokenize (Some (neg, rs @ [(c, c)])) cs
         | _ \<Rightarrow> tokenize (Some (neg, rs @ [(c, c)])) cs))"

fun glob :: "token list \<Rightarrow> string \<Rightarrow> bool" where
  "glob [] s = (s = [])"
| "glob (Star # ts) [] = glob ts []"
| "glob (Star # ts) (c # cs) = (glob ts (c # cs) \<or> glob (Star # ts) cs)"
| "glob (AnyChar # ts) [] = False"
| "glob (AnyChar # ts) (c # cs) = glob ts cs"
| "glob (Lit a # ts) [] = False"
| "glob (Lit a # ts) (c # cs) = (a = c \<and> glob ts cs)"
| "glob (Class neg rs # ts) [] = False"
| "glob (Class neg rs # ts) (c # cs) =
     ((list_ex (\<lambda>r. fst r \<le> c \<and> c \<le> snd r) rs \<noteq> neg) \<and> glob ts cs)"

definition stringmatch :: "string \<Rightarrow> string \<Rightarrow> bool" where
  "stringmatch pattern s = glob (tokenize None pattern) s"

text \<open>
  The server keeps, for each key, a value and the instant at which it expires. A client
  command can be rejected (the connection is down, the server answers with an error):
  \<^term>\<open>outages\<close> is the schedule of the commands to come, \<^const>\<open>True\<close> for one that is
  rejected; after the schedule every command goes through.
\<close>

record redis =
  entries :: "(string \<times> string \<times> nat) list"
  outages :: "bool list"

text \<open>
  What the program does is recorded as a trace: the Redis commands it issues, the calls of
  \<^verbatim>\<open>next()\<close>, the responses put on the wire (status and body), the console lines (without
  their leading pictograph) and the writes that the database acknowledged.
\<close>

datatype event =
    RedisGet string
  | RedisSetEx string nat string
  | RedisKeys string
  | RedisDel "string list"
  | CallNext
  | Send nat string
  | ConsoleLog string
  | ConsoleError string
  | DbWrite string

text \<open>
  The state a request runs in: the module variable \<^verbatim>\<open>redisClient\<close> of \<^verbatim>\<open>utils/redis.js\<close>
  (\<^const>\<open>None\<close> for \<^verbatim>\<open>null\<close>), the clock in seconds, the database, the trace, and what the
  rejection handlers of promises that nobody awaits will log. Such a handler runs in a
  later turn of the event loop, once the code that is running has returned.
\<close>

record 'db world =
  redisClient :: "redis option"
  now :: nat
  db :: 'db
  trace :: "event list"
  pending :: "event list"

datatype 'a outcome = Done 'a | Threw error 'a

definition emit :: "event \<Rightarrow> 'db world \<Rightarrow> 'db world" where
  "emit ev w = w\<lparr>trace := trace w @ [ev]\<rparr>"

text \<open>The later turn of the event loop: the pending handlers run.\<close>

definition runPending :: "'db world \<Rightarrow> 'db world" where
  "runPending w = w\<lparr>trace := trace w @ pending w, pending := []\<rparr>"

text \<open>\<^verbatim>\<open>getRedisClient\<close>, utils/redis.js (listed in src/backend/server.js, lines 151 to 154).\<close>

definition getRedisClient :: "'db world \<Rightarrow> redis option" where
  "getRedisClient w = redisClient w"

text \<open>
  Issuing a command: it is recorded, the schedule advances, and the client that will
  execute it is returned unless the command is rejected. A command on a handle that was
  reset in the meantime is rejected.
\<close>

definition command :: "event \<Rightarrow> 'db world \<Rightarrow> redis option \<times> 'db world" where
  "command ev w =
     (case redisClient w of
        None \<Rightarrow> (None, emit ev w)
      | Some rc \<Rightarrow>
          (case outages rc of
             [] \<Rightarrow> (Some rc, emit ev w)
           | b # bs \<Rightarrow>
               (if b then None else Some (rc\<lparr>outages := bs\<rparr>),
                emit ev (w\<lparr>redisClient := Some (rc\<lparr>outages := bs\<rparr>)\<rparr>))))"

text \<open>The value under a key at an instant: absent once expired.\<close>

definition lookup :: "nat \<Rightarrow> (string \<times> string \<times> nat) list \<Rightarrow> string \<Rightarrow> string option" where
  "lookup t es key =
     (case map_of es key of
        None \<Rightarrow> None
      | Some (v, expiry) \<Rightarrow> if t < expiry then Some v else None)"

definition client_get :: "string \<Rightarrow> 'db world \<Rightarrow> (error + string option) \<times> 'db world" where
  "client_get key w =
     (case command (RedisGet key) w of
        (None, w1) \<Rightarrow> (Inl RedisError, w1)
      | (Some rc, w1) \<Rightarrow> (Inr (lookup (now w1) (entries rc) key), w1))"

text \<open>\<^verbatim>\<open>SETEX\<close> replaces the entry; the server refuses an expiry of zero seconds.\<close>

definition client_setEx :: "string \<Rightarrow> nat \<Rightarrow> string \<Rightarrow> 'db world \<Rightarrow> (error + unit) \<times> 'db world" where
  "client_setEx key ttl v w =
     (case command (RedisSetEx key ttl v) w of
        (None, w1) \<Rightarrow> (Inl RedisError, w1)
      | (Some rc, w1) \<Rightarrow>
          if ttl = 0 then (Inl RedisError, w1)
          else (Inr (),
                w1\<lparr>redisClient :=
                     Some (rc\<lparr>entries :=
                             (key, v, now w1 + ttl) # filter (\<lambda>e. fst e \<noteq> key) (entries rc)\<rparr>)\<rparr>))"

text \<open>\<^verbatim>\<open>KEYS\<close> lists the keys that have not expired and match the pattern.\<close>

definition client_keys :: "string \<Rightarrow> 'db world \<Rightarrow> (error + string list) \<times> 'db world" where
  "client_keys pattern w =
     (case command (RedisKeys pattern) w of
        (None, w1) \<Rightarrow> (Inl RedisError, w1)
      | (Some rc, w1) \<Rightarrow>
          (Inr (map fst (filter (\<lambda>e. now w1 < snd (snd e) \<and> stringmatch pattern (fst e))
                          (entries rc))),
           w1))"

definition client_del :: "string list \<Rightarrow> 'db world \<Rightarrow> (error + nat) \<times> 'db world" where
  "client_del ks w =
     (case command (RedisDel ks) w of
        (None, w1) \<Rightarrow> (Inl RedisError, w1)
      | (Some rc, w1) \<Rightarrow>
          (Inr (length (filter (\<lambda>e. fst e \<in> set ks) (entries rc))),
           w1\<lparr>redisClient :=
                Some (rc\<lparr>entries := filter (\<lambda>e. fst e \<notin> set ks) (entries rc)\<rparr>)\<rparr>))"

text \<open>What a \<^verbatim>\<open>GET\<close> at instant \<^term>\<open>t\<close> would find in a world: the retrievable value.\<close>

definition retrievable :: "nat \<Rightarrow> string \<Rightarrow> 'db world \<Rightarrow> string option" where
  "retrievable t key w =
     (case redisClient w of
        None \<Rightarrow> None
      | Some rc \<Rightarrow> lookup t (entries rc) key)"

section \<open>The response object and the route handlers\<close>

text \<open>
  \<^verbatim>\<open>res.json\<close> is a method that the middleware replaces, so it is a field of the response
  object. It gets the status in force at the call (\<^verbatim>\<open>res.status(n).json(data)\<close> is the
  call with \<^term>\<open>n\<close>) and the payload, and it may throw.
\<close>

type_synonym 'db json_method = "nat \<Rightarrow> jsval \<Rightarrow> 'db world \<Rightarrow> 'db world outcome"

record 'db response =
  statusCode :: nat
  json :: "'db json_method"

text \<open>Express's own \<^verbatim>\<open>res.json\<close>: the payload is serialized and sent.\<close>

definition expressJson :: "'db json_method" where
  "expressJson status data w =
     (case JSON_stringify data of
        None \<Rightarrow> Threw TypeError w
      | Some serialized \<Rightarrow> Done (emit (Send status serialized) w))"

definition expressResponse :: "'db response" where
  "expressResponse = \<lparr>statusCode = 200, json = expressJson\<rparr>"

text \<open>
  The read handlers of \<^verbatim>\<open>routes/*.js\<close> all have one shape: inside \<^verbatim>\<open>try\<close>, query the database
  and send the result with \<^verbatim>\<open>res.json\<close>; in \<^verbatim>\<open>catch\<close>, log and send status 500 with a failure
  payload. The database part is the parameter \<^term>\<open>run\<close>, which gives the status and
  payload to send and the database afterwards. An error thrown by the second
  \<^verbatim>\<open>res.json\<close> leaves the handler.
\<close>

definition routeHandler ::
    "(request \<Rightarrow> 'db \<Rightarrow> (nat \<times> jsval) \<times> 'db) \<Rightarrow> jsval \<Rightarrow> request \<Rightarrow> 'db response \<Rightarrow>
     'db world \<Rightarrow> 'db world" where
  "routeHandler run failure req res w =
     (case run req (db w) of
        ((status, data), db') \<Rightarrow>
          (case json res status data (w\<lparr>db := db'\<rparr>) of
             Done w1 \<Rightarrow> w1
           | Threw e w1 \<Rightarrow>
               (case json res 500 failure (emit (ConsoleError ''Error fetching'') w1) of
                  Done w2 \<Rightarrow> w2
                | Threw e' w2 \<Rightarrow> w2)))"

section \<open>The cache middleware\<close>

text \<open>JavaScript truthiness of a value, for \<^verbatim>\<open>req.user\<close>.\<close>

fun truthy :: "jsval \<Rightarrow> bool" where
  "truthy JNull = False"
| "truthy (JBool b) = b"
| "truthy (JNum i) = (i \<noteq> 0)"
| "truthy (JStr s) = (s \<noteq> [])"
| "truthy (JBigInt i) = (i \<noteq> 0)"
| "truthy v = True"

definition DEFAULT_TTL :: nat where
  "DEFAULT_TTL = 3600"

text \<open>
  \<^verbatim>\<open>redisClient.setEx(...).catch(err => console.error(...))\<close>, cache.js lines 60 and 61: the
  command is issued, the promise is not awaited, and the handler of a rejection is left
  pending: it logs after \<^verbatim>\<open>originalJson(data)\<close> and the code around it have returned.
\<close>

definition setExLogged :: "string \<Rightarrow> nat \<Rightarrow> string \<Rightarrow> 'db world \<Rightarrow> 'db world" where
  "setExLogged cacheKey ttl serialized w =
     (case client_setEx cacheKey ttl serialized w of
        (Inl err, w1) \<Rightarrow> w1\<lparr>pending := pending w1 @ [ConsoleError ''Redis set error'']\<rparr>
      | (Inr u, w1) \<Rightarrow> w1)"

text \<open>
  The \<^verbatim>\<open>res.json\<close> that the middleware installs on a miss, cache.js lines 57 to 66. The
  arguments of \<^verbatim>\<open>setEx\<close> are evaluated first, so an error of \<^verbatim>\<open>JSON.stringify\<close> is thrown
  before any command is issued.
\<close>

definition cachingJson :: "string \<Rightarrow> nat \<Rightarrow> 'db json_method \<Rightarrow> 'db json_method" where
  "cachingJson cacheKey ttl originalJson status data w =
     (case success_of data of
        Inl e \<Rightarrow> Threw e w
      | Inr success \<Rightarrow>
          if success \<noteq> Some (JBool False) then
            (case JSON_stringify data of
               None \<Rightarrow> Threw TypeError w
             | Some serialized \<Rightarrow> originalJson status data (setExLogged cacheKey ttl serialized w))
          else originalJson status data w)"

text \<open>\<^verbatim>\<open>next()\<close>: the rest of the chain runs with the response object as it is now.\<close>

definition callNext :: "('db response \<Rightarrow> 'db world \<Rightarrow> 'db world) \<Rightarrow> 'db response \<Rightarrow> 'db world \<Rightarrow> 'db world" where
  "callNext nxt res w = nxt res (emit CallNext w)"

text \<open>
  \<^verbatim>\<open>cacheMiddleware(ttl)\<close>, cache.js lines 19 to 75. \<^verbatim>\<open>JSON.parse\<close> is a parameter: it gives
  \<^const>\<open>None\<close> where it throws a SyntaxError. The handlers behind \<^verbatim>\<open>next()\<close> are asynchronous, so
  \<^verbatim>\<open>next()\<close> itself does not throw.
\<close>

definition cacheMiddleware ::
    "(string \<Rightarrow> jsval option) \<Rightarrow> nat \<Rightarrow> request \<Rightarrow> 'db response \<Rightarrow>
     ('db response \<Rightarrow> 'db world \<Rightarrow> 'db world) \<Rightarrow> 'db world \<Rightarrow> 'db world" where
  "cacheMiddleware JSON_parse ttl req res nxt w =
     (if httpMethod req \<noteq> ''GET'' then callNext nxt res w
      else if includes_str (path req) ''/admin'' \<or> (case user req of None \<Rightarrow> False | Some u \<Rightarrow> truthy u)
        then callNext nxt res w
      else
        (case getRedisClient w of
           None \<Rightarrow> callNext nxt res w
         | Some client \<Rightarrow>
             (case client_get (generateCacheKey req) w of
                (Inl err, w1) \<Rightarrow> callNext nxt res (emit (ConsoleError ''Cache middleware error'') w1)
              | (Inr None, w1) \<Rightarrow>
                  callNext nxt (res\<lparr>json := cachingJson (generateCacheKey req) ttl (json res)\<rparr>)
                    (emit (ConsoleLog (''Cache MISS: '' @ generateCacheKey req)) w1)
              | (Inr (Some cachedData), w1) \<Rightarrow>
                  if cachedData \<noteq> [] then
                    (case JSON_parse cachedData of
                       None \<Rightarrow>
                         callNext nxt res
                           (emit (ConsoleError ''Cache middleware error'')
                              (emit (ConsoleLog (''Cache HIT: '' @ generateCacheKey req)) w1))
                     | Some parsedData \<Rightarrow>
                         (case json res (statusCode res) parsedData
                                 (emit (ConsoleLog (''Cache HIT: '' @ generateCacheKey req)) w1) of
                            Done w2 \<Rightarrow> w2
                          | Threw e w2 \<Rightarrow>
                              callNext nxt res (emit (ConsoleError ''Cache middleware error'') w2)))
                  else
                    callNext nxt (res\<lparr>json := cachingJson (generateCacheKey req) ttl (json res)\<rparr>)
                      (emit (ConsoleLog (''Cache MISS: '' @ generateCacheKey req)) w1))))"

section \<open>Invalidation\<close>

text \<open>\<^verbatim>\<open>invalidateCache\<close>, cache.js lines 78 to 96.\<close>

definition invalidateCache :: "string \<Rightarrow> 'db world \<Rightarrow> 'db world" where
  "invalidateCache pattern w =
     (case getRedisClient w of
        None \<Rightarrow> w
      | Some client \<Rightarrow>
          (case client_keys pattern w of
             (Inl err, w1) \<Rightarrow> emit (ConsoleError ''Cache invalidation error'') w1
           | (Inr ks, w1) \<Rightarrow>
               if length ks > 0 then
                 (case client_del ks w1 of
                    (Inl err, w2) \<Rightarrow> emit (ConsoleError ''Cache invalidation error'') w2
                  | (Inr n, w2) \<Rightarrow>
                      emit (ConsoleLog (''Cache invalidated: '' @ decimal (length ks) @
                                        '' keys matching '' @ [CHR 0x22] @ pattern @ [CHR 0x22])) w2)
               else w1))"

text \<open>\<^verbatim>\<open>invalidateRouteCache\<close>, cache.js lines 99 to 102.\<close>

definition invalidateRouteCache :: "string \<Rightarrow> 'db world \<Rightarrow> 'db world" where
  "invalidateRouteCache route w = invalidateCache (''GET:/api/'' @ route @ ''*'') w"

text \<open>\<^verbatim>\<open>invalidateResourceCache\<close>, cache.js lines 105 to 115.\<close>

definition invalidateResourceCache :: "string \<Rightarrow> 'db world \<Rightarrow> 'db world" where
  "invalidateResourceCache resource w =
     (let w1 = invalidateRouteCache resource w;
          w2 = (if resource = ''blog''
                then invalidateRouteCache ''blog/tags'' (invalidateRouteCache ''blog/categories'' w1)
                else w1)
      in if resource = ''skills'' then invalidateRouteCache ''skills/categories'' w2 else w2)"

section \<open>The write routes\<close>










text \<open>
  The loop that looks for a free slug, blog.js lines 193 to 199 and projects.js lines 119
  to 125. It runs as long as the slug is taken, so it need not return: \<^const>\<open>None\<close>.
\<close>

partial_function (option) uniqueSlug ::
    "(jsval \<Rightarrow> 'db \<Rightarrow> error + 'doc option) \<Rightarrow> 'db \<Rightarrow> string \<Rightarrow> string \<Rightarrow> nat \<Rightarrow>
     (error + string) option" where
  "uniqueSlug lookFor d baseSlug slug counter =
     (case lookFor (JObj [(''slug'', JStr slug)]) d of
        Inl e \<Rightarrow> Some (Inl e)
      | Inr None \<Rightarrow> Some (Inr slug)
      | Inr (Some doc) \<Rightarrow>
          uniqueSlug lookFor d baseSlug (baseSlug @ ''-'' @ decimal counter) (Suc counter))"



definition failed :: "string \<Rightarrow> jsval" where
  "failed message = JObj [(''success'', JBool False), (''message'', JStr message)]"

definition validationFailed :: "string list \<Rightarrow> jsval" where
  "validationFailed messages =
     JObj [(''success'', JBool False), (''message'', JStr ''Validation error''),
           (''errors'', JArr (map JStr messages))]"

text \<open>
  The \<^verbatim>\<open>catch\<close> blocks. An error thrown inside one leaves the asynchronous handler, and the
  state stays as it is. The console lines of the routes are not recorded.
\<close>

definition settle :: "'db world outcome \<Rightarrow> 'db world" where
  "settle r = (case r of Done w \<Rightarrow> w | Threw e w \<Rightarrow> w)"

definition catchServerError :: "string \<Rightarrow> 'db response \<Rightarrow> error \<Rightarrow> 'db world \<Rightarrow> 'db world" where
  "catchServerError message res e w = settle (json res 500 (failed message) w)"

definition catchValidation :: "string \<Rightarrow> 'db response \<Rightarrow> error \<Rightarrow> 'db world \<Rightarrow> 'db world" where
  "catchValidation message res e w =
     (case e of
        ValidationError messages \<Rightarrow> settle (json res 400 (validationFailed messages) w)
      | _ \<Rightarrow> settle (json res 500 (failed message) w))"

definition catchDuplicate :: "string \<Rightarrow> 'db response \<Rightarrow> error \<Rightarrow> 'db world \<Rightarrow> 'db world" where
  "catchDuplicate message res e w =
     (case e of
        ValidationError messages \<Rightarrow> settle (json res 400 (validationFailed messages) w)
      | MongoServerError code \<Rightarrow>
          if code = 11000 then settle (json res 400 (failed ''Skill with this name already exists'') w)
          else settle (json res 500 (failed message) w)
      | _ \<Rightarrow> settle (json res 500 (failed message) w))"













section \<open>Vocabulary of the theorems\<close>

text \<open>The store accepts every command to come.\<close>

definition healthy :: "'db world \<Rightarrow> bool" where
  "healthy w = (case redisClient w of None \<Rightarrow> False | Some rc \<Rightarrow> outages rc = [])"

text \<open>The store accepts the next command.\<close>

definition accepting :: "'db world \<Rightarrow> bool" where
  "accepting w =
     (case redisClient w of
        None \<Rightarrow> False
      | Some rc \<Rightarrow> (case outages rc of [] \<Rightarrow> True | b # bs \<Rightarrow> \<not> b))"

text \<open>A resource name that the glob pattern built from it reads character by character.\<close>

definition literal :: "string \<Rightarrow> bool" where
  "literal p =
     list_all (\<lambda>c. c \<noteq> CHR ''*'' \<and> c \<noteq> CHR ''?'' \<and> c \<noteq> CHR ''['' \<and> c \<noteq> CHR 0x5C) p"

text \<open>The patterns of the \<^verbatim>\<open>KEYS\<close> commands in a trace, and the \<^verbatim>\<open>DEL\<close> commands in it.\<close>

fun keysIssued :: "event list \<Rightarrow> string list" where
  "keysIssued [] = []"
| "keysIssued (RedisKeys p # es) = p # keysIssued es"
| "keysIssued (e # es) = keysIssued es"

fun delIssued :: "event list \<Rightarrow> string list list" where
  "delIssued [] = []"
| "delIssued (RedisDel ks # es) = ks # delIssued es"
| "delIssued (e # es) = delIssued es"

text \<open>The writes that the database acknowledged, in a trace.\<close>

fun dbWrites :: "event list \<Rightarrow> string list" where
  "dbWrites [] = []"
| "dbWrites (DbWrite name # es) = name # dbWrites es"
| "dbWrites (e # es) = dbWrites es"

text \<open>No \<^verbatim>\<open>KEYS\<close> and no \<^verbatim>\<open>DEL\<close> is issued before the first acknowledged write.\<close>

fun invalidationFollowsWrite :: "event list \<Rightarrow> bool" where
  "invalidationFollowsWrite [] = True"
| "invalidationFollowsWrite (DbWrite name # es) = True"
| "invalidationFollowsWrite (RedisKeys p # es) = False"
| "invalidationFollowsWrite (RedisDel ks # es) = False"
| "invalidationFollowsWrite (e # es) = invalidationFollowsWrite es"




text \<open>The entries that a \<^verbatim>\<open>KEYS\<close> with the prefix, at the instant, would list.\<close>

definition liveWithPrefix :: "nat \<Rightarrow> string \<Rightarrow> (string \<times> string \<times> nat) list \<Rightarrow> (string \<times> string \<times> nat) list" where
  "liveWithPrefix t p es = filter (\<lambda>e. t < snd (snd e) \<and> prefix p (fst e)) es"

text \<open>A request that the middleware does not bypass by its method, path or identity.\<close>

definition cacheable :: "request \<Rightarrow> bool" where
  "cacheable req =
     (httpMethod req = ''GET'' \<and> \<not> includes_str (path req) ''/admin'' \<and>
      (case user req of None \<Rightarrow> True | Some u \<Rightarrow> \<not> truthy u))"



definition quietCatch :: "(error \<Rightarrow> 'db world \<Rightarrow> 'db world) \<Rightarrow> bool" where
  "quietCatch c =
     (\<forall>e w. \<exists>es. trace (c e w) = trace w @ es \<and> dbWrites es = [] \<and> keysIssued es = [] \<and>
        delIssued es = [] \<and> invalidationFollowsWrite es \<and> redisClient (c e w) = redisClient w)"

section \<open>Example requests, payloads and stores\<close>

text \<open>
  A read handler that counts its calls in the database, and a \<^verbatim>\<open>JSON.parse\<close> that knows the
  one text it is given.
\<close>

definition projectsList :: request where
  "projectsList =
     \<lparr>httpMethod = ''GET'', originalUrl = Some ''/api/projects'', url = ''/'', path = ''/'',
      query = [], user = None\<rparr>"

definition projectsCreate :: request where
  "projectsCreate =
     \<lparr>httpMethod = ''POST'', originalUrl = Some ''/api/projects'', url = ''/'', path = ''/'',
      query = [], user = Some (JObj [(''role'', JStr ''admin'')])\<rparr>"

definition listing :: jsval where
  "listing = JObj [(''success'', JBool True), (''count'', JNum 2)]"

definition listingBody :: string where
  "listingBody = ''{'' @ quote ''success'' @ '':true,'' @ quote ''count'' @ '':2}''"

definition notFound :: jsval where
  "notFound = JObj [(''success'', JBool False)]"

definition untagged :: jsval where
  "untagged = JObj [(''count'', JNum 2)]"

definition untaggedBody :: string where
  "untaggedBody = ''{'' @ quote ''count'' @ '':2}''"

definition unmarked :: jsval where
  "unmarked = JObj [(''error'', JStr ''boom'')]"

definition unmarkedBody :: string where
  "unmarkedBody = ''{'' @ quote ''error'' @ '':'' @ quote ''boom'' @ ''}''"

definition parseListing :: "string \<Rightarrow> jsval option" where
  "parseListing s = (if s = listingBody then Some listing else None)"

definition countingRun :: "request \<Rightarrow> nat \<Rightarrow> (nat \<times> jsval) \<times> nat" where
  "countingRun req n = ((200, listing), Suc n)"

definition emptyStore :: redis where
  "emptyStore = \<lparr>entries = [], outages = []\<rparr>"

definition blogStore :: redis where
  "blogStore =
     \<lparr>entries = [(''GET:/api/blog'', ''[1]'', 3600), (''GET:/api/blog/tags'', ''[2]'', 7200),
                 (''GET:/api/projects'', ''[3]'', 3600)],
      outages = []\<rparr>"

definition world0 :: "redis option \<Rightarrow> nat world" where
  "world0 client = \<lparr>redisClient = client, now = 0, db = 0, trace = [], pending = []\<rparr>"

definition blogAsAdmin :: request where
  "blogAsAdmin =
     \<lparr>httpMethod = ''GET'', originalUrl = Some ''/api/blog'', url = ''/'', path = ''/'',
      query = [], user = Some (JObj [(''role'', JStr ''admin'')])\<rparr>"

definition profileAdmin :: request where
  "profileAdmin =
     \<lparr>httpMethod = ''GET'', originalUrl = Some ''/api/profile/admin'', url = ''/admin'',
      path = ''/admin'', query = [], user = None\<rparr>"





section \<open>Properties of the cache key\<close>

text \<open>
  Sorting makes a list of names independent of the order it was given in, and an object
  has each property once.
\<close>

lemma sort_fst_perm:
  assumes "mset q1 = mset q2"
  shows "sort (map fst q1) = sort (map fst q2)"
proof -
  have "mset (map fst q1) = mset (map fst q2)"
    using assms by (metis mset_map)
  then show ?thesis
    by (metis properties_for_sort sorted_sort mset_sort)
qed

lemma map_of_perm:
  assumes "mset q1 = mset q2" and "distinct (map fst q1)"
  shows "map_of q1 = map_of q2"
proof -
  have d2: "distinct (map fst q2)"
    using assms by (metis mset_map mset_eq_imp_distinct_iff)
  have "set q1 = set q2"
    using assms(1) by (rule mset_eq_setD)
  then show ?thesis
    using assms(2) d2 by (rule map_of_inject_set [THEN iffD2, rotated 2])
qed

text \<open>
  What sorting the parameter names achieves: the query part of the key does not depend
  on the order in which \<^verbatim>\<open>req.query\<close> enumerates its properties.
\<close>

lemma queryString_perm:
  assumes "mset (query r1) = mset (query r2)" and "distinct (map fst (query r1))"
  shows "queryString r1 = queryString r2"
  using sort_fst_perm [OF assms(1)] map_of_perm [OF assms]
  by (simp add: queryString_def)

text \<open>
  So two requests get the same key when they agree on the method and on the request
  target as it was sent, and their query objects have the same properties.
\<close>

lemma generateCacheKey_enumeration_order:
  assumes "httpMethod r1 = httpMethod r2" and "originalUrl r1 = originalUrl r2"
    and "url r1 = url r2" and "mset (query r1) = mset (query r2)"
    and "distinct (map fst (query r1))"
  shows "generateCacheKey r1 = generateCacheKey r2"
  using assms(1-3) queryString_perm [OF assms(4,5)]
  by (auto simp: generateCacheKey_def baseKey_def split: option.splits)

text \<open>
  C2. Two requests with the same method, path and query parameters, sent with the
  parameters in a different order, should get the same key. They do not:
  \<^verbatim>\<open>req.originalUrl\<close> already carries the query string in the order sent, and the sorted
  parameters are appended to it.
\<close>

theorem generateCacheKey_parameter_order:
  "httpMethod projectsStatusFirst = httpMethod projectsFeaturedFirst \<and>
   path projectsStatusFirst = path projectsFeaturedFirst \<and>
   mset (query projectsStatusFirst) = mset (query projectsFeaturedFirst) \<and>
   generateCacheKey projectsStatusFirst =
     ''GET:/api/projects?status=all&featured=true?featured=true&status=all'' \<and>
   generateCacheKey projectsFeaturedFirst =
     ''GET:/api/projects?featured=true&status=all?featured=true&status=all'' \<and>
   generateCacheKey projectsStatusFirst \<noteq> generateCacheKey projectsFeaturedFirst"
  by (simp add: generateCacheKey_def baseKey_def queryString_def
      projectsStatusFirst_def projectsFeaturedFirst_def)

text \<open>
  C8. A key should read \<^verbatim>\<open>METHOD:/api/<resource>[/<path-suffix>][?sorted-query]\<close>, with the
  query part once. For \<^verbatim>\<open>GET /api/projects?featured=true\<close> the key carries the query twice.
\<close>

theorem generateCacheKey_query_twice:
  "generateCacheKey projectsFeatured = ''GET:/api/projects?featured=true?featured=true'' \<and>
   length (filter (\<lambda>c. c = CHR ''?'') (generateCacheKey projectsFeatured)) = 2"
  by (simp add: generateCacheKey_def baseKey_def queryString_def projectsFeatured_def)

section \<open>Facts about the state, the client and the examples\<close>

text \<open>What \<^const>\<open>emit\<close> changes, and what issuing a command does to the state.\<close>

lemma trace_emit [simp]: "trace (emit ev w) = trace w @ [ev]"
  and now_emit [simp]: "now (emit ev w) = now w"
  and db_emit [simp]: "db (emit ev w) = db w"
  and redisClient_emit [simp]: "redisClient (emit ev w) = redisClient w"
  and pending_emit [simp]: "pending (emit ev w) = pending w"
  by (simp_all add: emit_def)

lemma command_healthy:
  "redisClient w = Some rc \<Longrightarrow> outages rc = [] \<Longrightarrow> command ev w = (Some rc, emit ev w)"
  by (simp add: command_def)

lemma trace_command: "trace (snd (command ev w)) = trace w @ [ev]"
  by (simp add: command_def split: option.splits list.splits)

lemma pending_command: "pending (snd (command ev w)) = pending w"
  by (simp add: command_def split: option.splits list.splits)

lemma redisClient_command:
  "redisClient w \<noteq> None \<Longrightarrow> redisClient (snd (command ev w)) \<noteq> None"
  by (auto simp: command_def split: option.splits list.splits)

lemma command_accepting:
  assumes "accepting w"
  obtains rc rc' where "redisClient w = Some rc"
    and "command ev w = (Some rc', (emit ev w)\<lparr>redisClient := Some rc'\<rparr>)"
    and "entries rc' = entries rc"
proof (cases "redisClient w")
  case None
  then show ?thesis using assms by (simp add: accepting_def)
next
  case (Some rc)
  show ?thesis
  proof (cases "outages rc")
    case Nil
    have "command ev w = (Some rc, (emit ev w)\<lparr>redisClient := Some rc\<rparr>)"
      using Some Nil by (simp add: command_def emit_def)
    then show ?thesis using that Some by blast
  next
    case (Cons b bs)
    then have "\<not> b" using assms Some by (simp add: accepting_def)
    then have "command ev w =
        (Some (rc\<lparr>outages := bs\<rparr>), (emit ev w)\<lparr>redisClient := Some (rc\<lparr>outages := bs\<rparr>)\<rparr>)"
      using Some Cons by (simp add: command_def emit_def)
    then show ?thesis using that [of rc "rc\<lparr>outages := bs\<rparr>"] Some by simp
  qed
qed

lemma command_rejecting:
  assumes "\<not> accepting w"
  obtains w1 where "command ev w = (None, w1)" and "trace w1 = trace w @ [ev]"
    and "now w1 = now w" and "db w1 = db w"
    and "\<forall>t k. retrievable t k w1 = retrievable t k w"
proof (cases "redisClient w")
  case None
  then have "command ev w = (None, emit ev w)" by (simp add: command_def)
  then show ?thesis using that [of "emit ev w"] by (simp add: retrievable_def)
next
  case (Some rc)
  then obtain bs where o: "outages rc = True # bs"
    using assms by (auto simp: accepting_def split: list.splits)
  have "command ev w = (None, emit ev (w\<lparr>redisClient := Some (rc\<lparr>outages := bs\<rparr>)\<rparr>))"
    using Some o by (simp add: command_def)
  then show ?thesis
    using that [of "emit ev (w\<lparr>redisClient := Some (rc\<lparr>outages := bs\<rparr>)\<rparr>)"] Some
    by (simp add: retrievable_def)
qed

lemma client_get_healthy:
  "redisClient w = Some rc \<Longrightarrow> outages rc = [] \<Longrightarrow>
     client_get key w = (Inr (lookup (now w) (entries rc) key), emit (RedisGet key) w)"
  by (simp add: client_get_def command_healthy)

lemma client_keys_trace:
  "trace (snd (client_keys p w)) = trace w @ [RedisKeys p]"
  "redisClient w \<noteq> None \<Longrightarrow> redisClient (snd (client_keys p w)) \<noteq> None"
  using trace_command [of "RedisKeys p" w] redisClient_command [of w "RedisKeys p"]
  by (auto simp: client_keys_def split: prod.splits option.splits)

lemma client_del_trace:
  "trace (snd (client_del ks w)) = trace w @ [RedisDel ks]"
  "redisClient w \<noteq> None \<Longrightarrow> redisClient (snd (client_del ks w)) \<noteq> None"
  using trace_command [of "RedisDel ks" w] redisClient_command [of w "RedisDel ks"]
  by (auto simp: client_del_def split: prod.splits option.splits)

text \<open>Looking a key up after entries were deleted or replaced.\<close>

lemma map_of_filter_keys:
  "map_of (filter (\<lambda>e. fst e \<notin> S) es) k = (if k \<in> S then None else map_of es k)"
  by (induction es) auto

lemma map_of_filter_other:
  "map_of (filter (\<lambda>e. fst e \<noteq> key) es) k = (if k = key then None else map_of es k)"
  by (induction es) auto

lemma keysIssued_append [simp]: "keysIssued (xs @ ys) = keysIssued xs @ keysIssued ys"
  by (induction xs rule: keysIssued.induct) simp_all

lemma delIssued_append [simp]: "delIssued (xs @ ys) = delIssued xs @ delIssued ys"
  by (induction xs rule: delIssued.induct) simp_all

text \<open>A serialized payload is never the empty string, so a stored payload is a hit.\<close>

lemma decimal_nonempty: "decimal n \<noteq> []"
  by (subst decimal.simps) simp

lemma JSON_stringify_nonempty: "JSON_stringify v = Some s \<Longrightarrow> s \<noteq> []"
  by (cases v) (auto simp: showInt_def quote_def decimal_nonempty split: option.splits if_splits)

text \<open>The example payloads serialized, and the example handler on Express's response.\<close>

lemma stringify_listing: "JSON_stringify listing = Some listingBody"
  by (simp add: listing_def listingBody_def showInt_def decimal.simps digit_def)

lemma stringify_untagged: "JSON_stringify untagged = Some untaggedBody"
  by (simp add: untagged_def untaggedBody_def showInt_def decimal.simps digit_def)

lemma routeHandler_express:
  "routeHandler countingRun notFound req expressResponse w =
     emit (Send 200 listingBody) (w\<lparr>db := Suc (db w)\<rparr>)"
  by (simp add: routeHandler_def countingRun_def expressResponse_def expressJson_def
      stringify_listing)

section \<open>Bypass, and the store that is not there\<close>

text \<open>Each early return of the middleware, and of the invalidation.\<close>

lemma cacheMiddleware_not_GET:
  "httpMethod req \<noteq> ''GET'' \<Longrightarrow> cacheMiddleware P ttl req res nxt w = nxt res (emit CallNext w)"
  by (simp add: cacheMiddleware_def callNext_def)

lemma cacheMiddleware_admin:
  "includes_str (path req) ''/admin'' \<Longrightarrow> cacheMiddleware P ttl req res nxt w = nxt res (emit CallNext w)"
  by (simp add: cacheMiddleware_def callNext_def)

lemma cacheMiddleware_user:
  "user req = Some u \<Longrightarrow> truthy u \<Longrightarrow> cacheMiddleware P ttl req res nxt w = nxt res (emit CallNext w)"
  by (simp add: cacheMiddleware_def callNext_def)

lemma cacheMiddleware_no_client:
  "redisClient w = None \<Longrightarrow> cacheMiddleware P ttl req res nxt w = nxt res (emit CallNext w)"
  by (simp add: cacheMiddleware_def callNext_def getRedisClient_def)

lemma invalidateCache_no_client:
  "redisClient w = None \<Longrightarrow> invalidateCache pattern w = w"
  by (simp add: invalidateCache_def getRedisClient_def)

lemma invalidateResourceCache_no_client:
  "redisClient w = None \<Longrightarrow> invalidateResourceCache resource w = w"
  by (simp add: invalidateResourceCache_def invalidateRouteCache_def invalidateCache_no_client Let_def)

text \<open>
  C4. A request whose method is not \<^verbatim>\<open>GET\<close>, or that carries \<^verbatim>\<open>req.user\<close>, or whose path
  contains \<^verbatim>\<open>/admin\<close>: the middleware does nothing but call the handler, with the response
  object as it got it and the store untouched; no Redis command is issued before the
  handler runs, whatever the store holds under the request's key.
\<close>

theorem cacheMiddleware_bypass:
  assumes "httpMethod req \<noteq> ''GET'' \<or> includes_str (path req) ''/admin'' \<or>
           (\<exists>u. user req = Some u \<and> truthy u)"
  shows "cacheMiddleware JSON_parse ttl req res nxt w = nxt res (emit CallNext w) \<and>
         redisClient (emit CallNext w) = redisClient w \<and>
         trace (emit CallNext w) = trace w @ [CallNext]"
  using assms cacheMiddleware_not_GET [of req JSON_parse ttl res nxt w]
    cacheMiddleware_admin [of req JSON_parse ttl res nxt w]
    cacheMiddleware_user [of req _ JSON_parse ttl res nxt w]
  by auto

text \<open>
  A POST, a GET on an administrative path, and a GET with an identity whose key is cached.
\<close>

theorem cacheMiddleware_bypass_witness:
  "httpMethod projectsCreate \<noteq> ''GET'' \<and>
   trace (cacheMiddleware parseListing 3600 projectsCreate expressResponse
            (routeHandler countingRun notFound projectsCreate) (world0 (Some blogStore))) =
     [CallNext, Send 200 listingBody] \<and>
   includes_str (path profileAdmin) ''/admin'' \<and>
   trace (cacheMiddleware parseListing 3600 profileAdmin expressResponse
            (routeHandler countingRun notFound profileAdmin) (world0 (Some blogStore))) =
     [CallNext, Send 200 listingBody] \<and>
   user blogAsAdmin = Some (JObj [(''role'', JStr ''admin'')]) \<and>
   retrievable 0 (generateCacheKey blogAsAdmin) (world0 (Some blogStore)) = Some ''[1]'' \<and>
   trace (cacheMiddleware parseListing 3600 blogAsAdmin expressResponse
            (routeHandler countingRun notFound blogAsAdmin) (world0 (Some blogStore))) =
     [CallNext, Send 200 listingBody]"
proof -
  have a: "httpMethod projectsCreate \<noteq> ''GET''" by (simp add: projectsCreate_def)
  have b: "includes_str (path profileAdmin) ''/admin''" by (simp add: profileAdmin_def)
  have c: "user blogAsAdmin = Some (JObj [(''role'', JStr ''admin'')])"
    "truthy (JObj [(''role'', JStr ''admin'')])"
    by (simp_all add: blogAsAdmin_def)
  have d: "retrievable 0 (generateCacheKey blogAsAdmin) (world0 (Some blogStore)) = Some ''[1]''"
    by (simp add: retrievable_def world0_def blogStore_def lookup_def generateCacheKey_def
        baseKey_def queryString_def blogAsAdmin_def)
  note A = cacheMiddleware_bypass [where req = projectsCreate and JSON_parse = parseListing
      and ttl = 3600 and res = expressResponse
      and nxt = "routeHandler countingRun notFound projectsCreate"
      and w = "world0 (Some blogStore)"]
  note B = cacheMiddleware_bypass [where req = profileAdmin and JSON_parse = parseListing
      and ttl = 3600 and res = expressResponse
      and nxt = "routeHandler countingRun notFound profileAdmin"
      and w = "world0 (Some blogStore)"]
  note C = cacheMiddleware_bypass [where req = blogAsAdmin and JSON_parse = parseListing
      and ttl = 3600 and res = expressResponse
      and nxt = "routeHandler countingRun notFound blogAsAdmin"
      and w = "world0 (Some blogStore)"]
  show ?thesis
    using A B C a b c d by (simp add: routeHandler_express world0_def)
qed

text \<open>
  C5. Without a client handle the cache layer does nothing: the middleware only calls the
  handler, every invalidation leaves the state as it is, and nothing is retrievable.
\<close>

theorem store_unavailable_passthrough:
  assumes "redisClient w = None"
  shows "cacheMiddleware JSON_parse ttl req res nxt w = nxt res (emit CallNext w) \<and>
         invalidateCache pattern w = w \<and>
         invalidateRouteCache route w = w \<and>
         invalidateResourceCache resource w = w \<and>
         retrievable t key w = None"
  using assms
  by (simp add: cacheMiddleware_no_client invalidateCache_no_client invalidateRouteCache_def
      invalidateResourceCache_no_client retrievable_def)

text \<open>The read of \<^verbatim>\<open>GET /api/projects\<close> and an invalidation without a store.\<close>

theorem store_unavailable_passthrough_witness:
  "redisClient (world0 None) = None \<and>
   trace (cacheMiddleware parseListing 3600 projectsList expressResponse
            (routeHandler countingRun notFound projectsList) (world0 None)) =
     [CallNext, Send 200 listingBody] \<and>
   invalidateResourceCache ''blog'' (world0 None) = world0 None \<and>
   invalidateCache ''GET:/api/blog*'' (world0 None) = world0 None"
proof -
  have a: "redisClient (world0 None) = None" by (simp add: world0_def)
  note A = store_unavailable_passthrough [OF a, where JSON_parse = parseListing
      and ttl = 3600 and req = projectsList and res = expressResponse
      and nxt = "routeHandler countingRun notFound projectsList"
      and resource = "''blog''" and pattern = "''GET:/api/blog*''"]
  show ?thesis
    using A a by (simp add: routeHandler_express world0_def)
qed

section \<open>The caching response method\<close>

text \<open>
  The store call of the caching \<^verbatim>\<open>res.json\<close> leaves the clock and the database alone and
  adds the command to the trace; it stores when the command is accepted and leaves the
  log of the rejection pending when it is not.
\<close>

lemma setExLogged_frame:
  "now (setExLogged key ttl serialized w) = now w \<and> db (setExLogged key ttl serialized w) = db w"
proof (cases "accepting w")
  case True
  then obtain rc rc' where
    "command (RedisSetEx key ttl serialized) w =
       (Some rc', (emit (RedisSetEx key ttl serialized) w)\<lparr>redisClient := Some rc'\<rparr>)"
    by (rule command_accepting)
  then show ?thesis by (simp add: setExLogged_def client_setEx_def)
next
  case False
  then obtain w1 where "command (RedisSetEx key ttl serialized) w = (None, w1)"
    "now w1 = now w" "db w1 = db w"
    by (rule command_rejecting)
  then show ?thesis by (simp add: setExLogged_def client_setEx_def)
qed

lemma setExLogged_trace:
  "trace (setExLogged key ttl serialized w) = trace w @ [RedisSetEx key ttl serialized]"
  using trace_command [of "RedisSetEx key ttl serialized" w]
  by (auto simp: setExLogged_def client_setEx_def split: prod.splits option.splits)

lemma setExLogged_accepted:
  assumes "accepting w" and "0 < ttl"
  shows "pending (setExLogged key ttl serialized w) = pending w \<and>
         (\<forall>t k. retrievable t k (setExLogged key ttl serialized w) =
            (if k = key then (if t < now w + ttl then Some serialized else None)
             else retrievable t k w))"
proof -
  obtain rc rc' where c: "redisClient w = Some rc"
    "command (RedisSetEx key ttl serialized) w =
       (Some rc', (emit (RedisSetEx key ttl serialized) w)\<lparr>redisClient := Some rc'\<rparr>)"
    "entries rc' = entries rc"
    using assms(1) by (rule command_accepting)
  show ?thesis
    using c assms(2)
    by (simp add: setExLogged_def client_setEx_def retrievable_def lookup_def map_of_filter_other)
qed

lemma setExLogged_rejected:
  assumes "\<not> (accepting w \<and> 0 < ttl)"
  shows "pending (setExLogged key ttl serialized w) =
           pending w @ [ConsoleError ''Redis set error''] \<and>
         (\<forall>t k. retrievable t k (setExLogged key ttl serialized w) = retrievable t k w)"
proof (cases "accepting w")
  case True
  then have z: "ttl = 0" using assms by simp
  obtain rc rc' where c: "redisClient w = Some rc"
    "command (RedisSetEx key ttl serialized) w =
       (Some rc', (emit (RedisSetEx key ttl serialized) w)\<lparr>redisClient := Some rc'\<rparr>)"
    "entries rc' = entries rc"
    using True by (rule command_accepting)
  show ?thesis
    using c z by (simp add: setExLogged_def client_setEx_def retrievable_def)
next
  case False
  then obtain w1 where w1: "command (RedisSetEx key ttl serialized) w = (None, w1)"
    "\<forall>t k. retrievable t k w1 = retrievable t k w"
    by (rule command_rejecting [where ev = "RedisSetEx key ttl serialized"]) blast
  have "pending w1 = pending w"
    using pending_command [of "RedisSetEx key ttl serialized" w] w1(1) by simp
  then show ?thesis
    using w1 by (simp add: setExLogged_def client_setEx_def retrievable_def)
qed

lemma setExLogged_healthy:
  assumes "redisClient w = Some rc" and "outages rc = []" and "0 < ttl"
  shows "setExLogged key ttl serialized w =
           (emit (RedisSetEx key ttl serialized) w)
             \<lparr>redisClient := Some (rc\<lparr>entries :=
                 (key, serialized, now w + ttl) # filter (\<lambda>e. fst e \<noteq> key) (entries rc)\<rparr>)\<rparr>"
  using assms by (simp add: setExLogged_def client_setEx_def command_healthy)

text \<open>The three ways through the caching \<^verbatim>\<open>res.json\<close> for a payload whose property can be read.\<close>

lemma cachingJson_failure:
  "success_of data = Inr (Some (JBool False)) \<Longrightarrow>
     cachingJson key ttl orig st data w = orig st data w"
  by (simp add: cachingJson_def)

lemma cachingJson_success:
  "success_of data = Inr s \<Longrightarrow> s \<noteq> Some (JBool False) \<Longrightarrow> JSON_stringify data = Some serialized \<Longrightarrow>
     cachingJson key ttl orig st data w = orig st data (setExLogged key ttl serialized w)"
  by (simp add: cachingJson_def)

lemma cachingJson_unserializable:
  "success_of data = Inr s \<Longrightarrow> s \<noteq> Some (JBool False) \<Longrightarrow> JSON_stringify data = None \<Longrightarrow>
     cachingJson key ttl orig st data w = Threw TypeError w"
  by (simp add: cachingJson_def)

text \<open>A payload \<^verbatim>\<open>null\<close> has no property to read: the caching \<^verbatim>\<open>res.json\<close> throws.\<close>

lemma cachingJson_null_throws: "cachingJson key ttl orig st JNull w = Threw TypeError w"
  by (simp add: cachingJson_def)

text \<open>
  C6, as amended. On a miss the handler's \<^verbatim>\<open>res.json\<close> is the caching one. A payload with
  \<^verbatim>\<open>success === false\<close> goes to the original \<^verbatim>\<open>res.json\<close> in an unchanged state: nothing is
  stored. Every other payload whose \<^verbatim>\<open>success\<close> can be read and that can be serialized,
  marked successful or not marked at all, is stored first: one \<^verbatim>\<open>SETEX\<close> with the configured
  TTL is issued and not awaited. When the store accepts it the serialized payload is
  retrievable until the TTL is over; when the store rejects it nothing is stored and the
  rejection is left to be logged later. In both cases the original \<^verbatim>\<open>res.json\<close> gets the
  handler's status and payload.
\<close>

theorem cachingJson_miss_policy:
  assumes "success_of data = Inr s"
  shows
    "(s = Some (JBool False) \<longrightarrow> cachingJson key ttl orig st data w = orig st data w) \<and>
     (s \<noteq> Some (JBool False) \<and> JSON_stringify data = Some serialized \<longrightarrow>
        cachingJson key ttl orig st data w = orig st data (setExLogged key ttl serialized w) \<and>
        now (setExLogged key ttl serialized w) = now w \<and>
        db (setExLogged key ttl serialized w) = db w \<and>
        trace (setExLogged key ttl serialized w) = trace w @ [RedisSetEx key ttl serialized] \<and>
        (accepting w \<and> 0 < ttl \<longrightarrow>
           pending (setExLogged key ttl serialized w) = pending w \<and>
           (\<forall>t. retrievable t key (setExLogged key ttl serialized w) =
                  (if t < now w + ttl then Some serialized else None))) \<and>
        (\<not> (accepting w \<and> 0 < ttl) \<longrightarrow>
           pending (setExLogged key ttl serialized w) =
             pending w @ [ConsoleError ''Redis set error''] \<and>
           (\<forall>t k. retrievable t k (setExLogged key ttl serialized w) = retrievable t k w)))"
proof (intro conjI impI)
  assume "s = Some (JBool False)"
  then show "cachingJson key ttl orig st data w = orig st data w"
    using assms by (simp add: cachingJson_failure)
next
  assume a: "s \<noteq> Some (JBool False) \<and> JSON_stringify data = Some serialized"
  then show "cachingJson key ttl orig st data w = orig st data (setExLogged key ttl serialized w)"
    using assms by (simp add: cachingJson_success)
  show "now (setExLogged key ttl serialized w) = now w" "db (setExLogged key ttl serialized w) = db w"
    using setExLogged_frame [of key ttl serialized w] by simp_all
  show "trace (setExLogged key ttl serialized w) = trace w @ [RedisSetEx key ttl serialized]"
    by (rule setExLogged_trace)
  {
    assume b: "accepting w \<and> 0 < ttl"
    show "pending (setExLogged key ttl serialized w) = pending w"
      using setExLogged_accepted [of w ttl key serialized] b by simp
    show "\<forall>t. retrievable t key (setExLogged key ttl serialized w) =
                  (if t < now w + ttl then Some serialized else None)"
      using setExLogged_accepted [of w ttl key serialized] b by simp
  }
  {
    assume b: "\<not> (accepting w \<and> 0 < ttl)"
    show "pending (setExLogged key ttl serialized w) =
             pending w @ [ConsoleError ''Redis set error'']"
      using setExLogged_rejected [OF b, of key serialized] by simp
    show "\<forall>t k. retrievable t k (setExLogged key ttl serialized w) = retrievable t k w"
      using setExLogged_rejected [OF b, of key serialized] by simp
  }
qed

text \<open>
  A failure payload; a successful one; and a store that rejects the command, where the
  response is sent first and the rejection logged in the later turn.
\<close>

theorem cachingJson_miss_policy_witness:
  "success_of notFound = Inr (Some (JBool False)) \<and>
   cachingJson ''GET:/api/projects/x'' 3600 expressJson 404 notFound (world0 (Some emptyStore)) =
     expressJson 404 notFound (world0 (Some emptyStore)) \<and>
   success_of listing = Inr (Some (JBool True)) \<and>
   cachingJson ''GET:/api/projects'' 3600 expressJson 200 listing (world0 (Some emptyStore)) =
     expressJson 200 listing
       (setExLogged ''GET:/api/projects'' 3600 listingBody (world0 (Some emptyStore))) \<and>
   retrievable 3599 ''GET:/api/projects''
     (setExLogged ''GET:/api/projects'' 3600 listingBody (world0 (Some emptyStore))) =
     Some listingBody \<and>
   pending (setExLogged ''GET:/api/projects'' 3600 listingBody
              (world0 (Some (emptyStore\<lparr>outages := [True]\<rparr>)))) =
     [ConsoleError ''Redis set error''] \<and>
   (case cachingJson ''GET:/api/projects'' 3600 expressJson 200 listing
           (world0 (Some (emptyStore\<lparr>outages := [True]\<rparr>))) of
      Done w' \<Rightarrow> trace (runPending w')
    | Threw e w' \<Rightarrow> []) =
     [RedisSetEx ''GET:/api/projects'' 3600 listingBody, Send 200 listingBody,
      ConsoleError ''Redis set error'']"
proof -
  let ?down = "world0 (Some (emptyStore\<lparr>outages := [True]\<rparr>))"
  have a: "success_of notFound = Inr (Some (JBool False))" by (simp add: notFound_def)
  have b: "success_of listing = Inr (Some (JBool True))" by (simp add: listing_def)
  have c: "accepting (world0 (Some emptyStore))"
    by (simp add: accepting_def world0_def emptyStore_def)
  have d: "\<not> accepting ?down"
    by (simp add: accepting_def world0_def emptyStore_def)
  note A = cachingJson_miss_policy [OF a, where key = "''GET:/api/projects/x''" and ttl = 3600
      and orig = expressJson and st = 404 and w = "world0 (Some emptyStore)"]
  note B = cachingJson_miss_policy [OF b, where key = "''GET:/api/projects''" and ttl = 3600
      and orig = expressJson and st = 200 and w = "world0 (Some emptyStore)"
      and serialized = listingBody]
  note C = cachingJson_miss_policy [OF b, where key = "''GET:/api/projects''" and ttl = 3600
      and orig = expressJson and st = 200 and w = ?down and serialized = listingBody]
  have e: "now (world0 (Some emptyStore)) = 0" "trace ?down = []" "pending ?down = []"
    by (simp_all add: world0_def)
  have f: "cachingJson ''GET:/api/projects'' 3600 expressJson 200 listing ?down =
      Done (emit (Send 200 listingBody) (setExLogged ''GET:/api/projects'' 3600 listingBody ?down))"
    using C stringify_listing by (simp add: expressJson_def)
  have g: "trace (runPending (emit (Send 200 listingBody)
        (setExLogged ''GET:/api/projects'' 3600 listingBody ?down))) =
      [RedisSetEx ''GET:/api/projects'' 3600 listingBody, Send 200 listingBody,
       ConsoleError ''Redis set error'']"
    using C d e stringify_listing by (simp add: runPending_def)
  have h: "(case cachingJson ''GET:/api/projects'' 3600 expressJson 200 listing ?down of
              Done w' \<Rightarrow> trace (runPending w')
            | Threw e w' \<Rightarrow> []) =
      [RedisSetEx ''GET:/api/projects'' 3600 listingBody, Send 200 listingBody,
       ConsoleError ''Redis set error'']"
    unfolding f using g by simp
  have i: "pending (setExLogged ''GET:/api/projects'' 3600 listingBody ?down) =
      [ConsoleError ''Redis set error'']"
    using C d e stringify_listing by simp
  show ?thesis
    using A B a b c e(1) stringify_listing h i by simp
qed

text \<open>
  C6, as it is written: only the payloads that the handler marks as successful are
  stored. The payload \<^verbatim>\<open>{error: 'boom'}\<close>, sent with status 500, carries no mark at all and
  is stored for the hour.
\<close>

theorem unmarked_payload_cached:
  "success_of unmarked = Inr None \<and>
   cachingJson ''GET:/api/projects'' 3600 expressJson 500 unmarked (world0 (Some emptyStore)) =
     Done \<lparr>redisClient = Some \<lparr>entries = [(''GET:/api/projects'', unmarkedBody, 3600)],
                                outages = []\<rparr>,
           now = 0, db = 0,
           trace = [RedisSetEx ''GET:/api/projects'' 3600 unmarkedBody, Send 500 unmarkedBody],
           pending = []\<rparr> \<and>
   lookup 3599 [(''GET:/api/projects'', unmarkedBody, 3600)] ''GET:/api/projects'' =
     Some unmarkedBody"
  by (simp add: unmarked_def unmarkedBody_def cachingJson_def setExLogged_def client_setEx_def
      command_def emit_def expressJson_def world0_def emptyStore_def lookup_def)

text \<open>
  C7. A payload that cannot be serialized should be passed on to the caller uncached. For
  the payload \<^verbatim>\<open>{success: true, total: 10n}\<close> the caching \<^verbatim>\<open>res.json\<close> throws the TypeError of
  \<^verbatim>\<open>JSON.stringify\<close> instead, and the original \<^verbatim>\<open>res.json\<close> is never called.
\<close>

theorem cachingJson_unserializable_throws:
  "success_of (JObj [(''success'', JBool True), (''total'', JBigInt 10)]) = Inr (Some (JBool True)) \<and>
   JSON_stringify (JObj [(''success'', JBool True), (''total'', JBigInt 10)]) = None \<and>
   cachingJson key ttl orig st (JObj [(''success'', JBool True), (''total'', JBigInt 10)]) w =
     Threw TypeError w"
  by (simp add: cachingJson_def)

text \<open>
  C10. The test for caching is only \<^verbatim>\<open>data.success !== false\<close>: a serializable payload whose
  \<^verbatim>\<open>success\<close> is absent or is any value but \<^verbatim>\<open>false\<close> is stored, retrievable at every instant
  before the TTL is over and absent from then on; a payload with \<^verbatim>\<open>success === false\<close> is
  not stored.
\<close>

theorem cacheability_test:
  assumes "success_of data = Inr s" and "JSON_stringify data = Some serialized"
    and "accepting w" and "0 < ttl"
  shows
    "(s \<noteq> Some (JBool False) \<longrightarrow>
        cachingJson key ttl orig st data w = orig st data (setExLogged key ttl serialized w) \<and>
        (\<forall>t. t < now w + ttl \<longrightarrow> retrievable t key (setExLogged key ttl serialized w) = Some serialized) \<and>
        (\<forall>t. now w + ttl \<le> t \<longrightarrow> retrievable t key (setExLogged key ttl serialized w) = None)) \<and>
     (s = Some (JBool False) \<longrightarrow> cachingJson key ttl orig st data w = orig st data w)"
  using assms setExLogged_accepted [of w ttl key serialized]
  by (simp add: cachingJson_failure cachingJson_success)

text \<open>A payload without the property \<^verbatim>\<open>success\<close>.\<close>

theorem cacheability_test_witness:
  "success_of untagged = Inr None \<and> JSON_stringify untagged = Some untaggedBody \<and>
   accepting (world0 (Some emptyStore)) \<and>
   cachingJson ''GET:/api/skills'' 7200 expressJson 200 untagged (world0 (Some emptyStore)) =
     expressJson 200 untagged
       (setExLogged ''GET:/api/skills'' 7200 untaggedBody (world0 (Some emptyStore))) \<and>
   retrievable 7199 ''GET:/api/skills''
     (setExLogged ''GET:/api/skills'' 7200 untaggedBody (world0 (Some emptyStore))) =
     Some untaggedBody \<and>
   retrievable 7200 ''GET:/api/skills''
     (setExLogged ''GET:/api/skills'' 7200 untaggedBody (world0 (Some emptyStore))) = None"
proof -
  have a: "success_of untagged = Inr None" by (simp add: untagged_def)
  have c: "accepting (world0 (Some emptyStore))"
    by (simp add: accepting_def world0_def emptyStore_def)
  have p: "(0::nat) < 7200" by simp
  note A = cacheability_test [OF a stringify_untagged c p, where key = "''GET:/api/skills''"
      and orig = expressJson and st = 200]
  have e: "now (world0 (Some emptyStore)) = 0" by (simp add: world0_def)
  show ?thesis
    using A a c e stringify_untagged by simp
qed

section \<open>Cache-aside\<close>

text \<open>The middleware on a miss and on a hit, for a store that accepts the \<^verbatim>\<open>GET\<close>.\<close>

lemma cacheMiddleware_miss:
  assumes "cacheable req" and "redisClient w = Some rc" and "outages rc = []"
    and "lookup (now w) (entries rc) (generateCacheKey req) = None"
  shows "cacheMiddleware JSON_parse ttl req res nxt w =
           nxt (res\<lparr>json := cachingJson (generateCacheKey req) ttl (json res)\<rparr>)
             (emit CallNext (emit (ConsoleLog (''Cache MISS: '' @ generateCacheKey req))
                (emit (RedisGet (generateCacheKey req)) w)))"
  using assms
  by (auto simp: cacheMiddleware_def cacheable_def getRedisClient_def client_get_healthy
      callNext_def split: option.splits)

lemma cacheMiddleware_hit:
  assumes "cacheable req" and "redisClient w = Some rc" and "outages rc = []"
    and "lookup (now w) (entries rc) (generateCacheKey req) = Some cachedData"
    and "cachedData \<noteq> []" and "JSON_parse cachedData = Some parsedData"
    and "json res (statusCode res) parsedData
           (emit (ConsoleLog (''Cache HIT: '' @ generateCacheKey req))
              (emit (RedisGet (generateCacheKey req)) w)) = Done w2"
  shows "cacheMiddleware JSON_parse ttl req res nxt w = w2"
  using assms
  by (auto simp: cacheMiddleware_def cacheable_def getRedisClient_def client_get_healthy
      callNext_def split: option.splits)

text \<open>
  C1. For a GET request that is not bypassed (no administrative path, no identity, store
  available and accepting commands) whose key holds nothing: the first read issues one
  \<^verbatim>\<open>GET\<close>, calls the handler once, stores the serialized successful result under the key
  with the TTL and sends the handler's result. The same read within the TTL window sends
  the stored payload (parsed and serialized again) with status 200; the handler is not
  called, and the database is as the first read left it.
\<close>

theorem cache_aside:
  fixes w :: "'db world"
  assumes req: "cacheable req"
    and client: "redisClient w = Some rc" "outages rc = []"
    and first: "lookup (now w) (entries rc) (generateCacheKey req) = None"
    and run: "run req (db w) = ((status, data), db')"
    and ok: "success_of data = Inr s" "s \<noteq> Some (JBool False)"
    and ser: "JSON_stringify data = Some serialized"
    and window: "d < ttl"
    and parse: "JSON_parse serialized = Some parsedData" "JSON_stringify parsedData = Some serialized'"
    and w1: "w1 = cacheMiddleware JSON_parse ttl req expressResponse (routeHandler run failure req) w"
    and w2: "w2 = cacheMiddleware JSON_parse ttl req expressResponse (routeHandler run failure req)
                    (w1\<lparr>now := now w + d\<rparr>)"
  shows
    "trace w1 = trace w @
       [RedisGet (generateCacheKey req), ConsoleLog (''Cache MISS: '' @ generateCacheKey req),
        CallNext, RedisSetEx (generateCacheKey req) ttl serialized, Send status serialized] \<and>
     db w1 = db' \<and>
     (\<forall>t. retrievable t (generateCacheKey req) w1 = (if t < now w + ttl then Some serialized else None)) \<and>
     trace w2 = trace w1 @
       [RedisGet (generateCacheKey req), ConsoleLog (''Cache HIT: '' @ generateCacheKey req),
        Send 200 serialized'] \<and>
     db w2 = db' \<and>
     redisClient w2 = redisClient w1"
proof -
  let ?key = "generateCacheKey req"
  let ?wm = "emit CallNext (emit (ConsoleLog (''Cache MISS: '' @ ?key)) (emit (RedisGet ?key) w))"
  let ?rc1 = "rc\<lparr>entries := (?key, serialized, now w + ttl) # filter (\<lambda>e. fst e \<noteq> ?key) (entries rc)\<rparr>"
  have pos: "0 < ttl" using window by simp
  have se: "setExLogged ?key ttl serialized (?wm\<lparr>db := db'\<rparr>) =
      (emit (RedisSetEx ?key ttl serialized) (?wm\<lparr>db := db'\<rparr>))\<lparr>redisClient := Some ?rc1\<rparr>"
    using setExLogged_healthy [of "?wm\<lparr>db := db'\<rparr>" rc ttl ?key serialized] client pos by simp
  have e1: "w1 = emit (Send status serialized)
      ((emit (RedisSetEx ?key ttl serialized) (?wm\<lparr>db := db'\<rparr>))\<lparr>redisClient := Some ?rc1\<rparr>)"
    unfolding w1 cacheMiddleware_miss [OF req client first]
    using run ok ser se
    by (simp add: routeHandler_def cachingJson_success [OF ok ser] expressResponse_def
        expressJson_def)
  have t1: "trace w1 = trace w @
       [RedisGet ?key, ConsoleLog (''Cache MISS: '' @ ?key), CallNext,
        RedisSetEx ?key ttl serialized, Send status serialized]"
    by (simp add: e1 emit_def)
  have d1: "db w1 = db'" by (simp add: e1 emit_def)
  have c1: "redisClient w1 = Some ?rc1" by (simp add: e1 emit_def)
  have r1: "retrievable t ?key w1 = (if t < now w + ttl then Some serialized else None)" for t
    by (simp add: retrievable_def c1 lookup_def)
  let ?w1' = "w1\<lparr>now := now w + d\<rparr>"
  have c1': "redisClient ?w1' = Some ?rc1" "outages ?rc1 = []"
    using c1 client by simp_all
  have l1: "lookup (now ?w1') (entries ?rc1) ?key = Some serialized"
    using window by (simp add: lookup_def)
  have ne: "serialized \<noteq> []" by (rule JSON_stringify_nonempty [OF ser])
  have j: "json expressResponse (statusCode expressResponse) parsedData
             (emit (ConsoleLog (''Cache HIT: '' @ ?key)) (emit (RedisGet ?key) ?w1')) =
           Done (emit (Send 200 serialized')
             (emit (ConsoleLog (''Cache HIT: '' @ ?key)) (emit (RedisGet ?key) ?w1')))"
    using parse(2) by (simp add: expressResponse_def expressJson_def)
  have e2: "w2 = emit (Send 200 serialized')
             (emit (ConsoleLog (''Cache HIT: '' @ ?key)) (emit (RedisGet ?key) ?w1'))"
    unfolding w2
    by (rule cacheMiddleware_hit [where JSON_parse = JSON_parse, OF req c1' l1 ne parse(1) j])
  have t2: "trace w2 = trace w1 @
       [RedisGet ?key, ConsoleLog (''Cache HIT: '' @ ?key), Send 200 serialized']"
    by (simp add: e2)
  have d2: "db w2 = db'" "redisClient w2 = redisClient w1"
    using d1 by (simp_all add: e2)
  show ?thesis using t1 d1 r1 t2 d2 by simp
qed

text \<open>The first and the second read of \<^verbatim>\<open>GET /api/projects\<close> on an empty store.\<close>

theorem cache_aside_witness:
  "cacheable projectsList \<and> generateCacheKey projectsList = ''GET:/api/projects'' \<and>
   trace (cacheMiddleware parseListing 3600 projectsList expressResponse
            (routeHandler countingRun notFound projectsList) (world0 (Some emptyStore))) =
     [RedisGet ''GET:/api/projects'', ConsoleLog ''Cache MISS: GET:/api/projects'', CallNext,
      RedisSetEx ''GET:/api/projects'' 3600 listingBody, Send 200 listingBody] \<and>
   db (cacheMiddleware parseListing 3600 projectsList expressResponse
            (routeHandler countingRun notFound projectsList) (world0 (Some emptyStore))) = 1 \<and>
   trace (cacheMiddleware parseListing 3600 projectsList expressResponse
            (routeHandler countingRun notFound projectsList)
            ((cacheMiddleware parseListing 3600 projectsList expressResponse
               (routeHandler countingRun notFound projectsList) (world0 (Some emptyStore)))
             \<lparr>now := 3599\<rparr>)) =
     [RedisGet ''GET:/api/projects'', ConsoleLog ''Cache MISS: GET:/api/projects'', CallNext,
      RedisSetEx ''GET:/api/projects'' 3600 listingBody, Send 200 listingBody,
      RedisGet ''GET:/api/projects'', ConsoleLog ''Cache HIT: GET:/api/projects'',
      Send 200 listingBody] \<and>
   db (cacheMiddleware parseListing 3600 projectsList expressResponse
            (routeHandler countingRun notFound projectsList)
            ((cacheMiddleware parseListing 3600 projectsList expressResponse
               (routeHandler countingRun notFound projectsList) (world0 (Some emptyStore)))
             \<lparr>now := 3599\<rparr>)) = 1"
proof -
  have key: "generateCacheKey projectsList = ''GET:/api/projects''"
    by (simp add: generateCacheKey_def baseKey_def queryString_def projectsList_def)
  have h1: "cacheable projectsList"
    by (simp add: cacheable_def projectsList_def)
  have h2: "redisClient (world0 (Some emptyStore)) = Some emptyStore" "outages emptyStore = []"
    by (simp_all add: world0_def emptyStore_def)
  have h3: "lookup (now (world0 (Some emptyStore))) (entries emptyStore)
              (generateCacheKey projectsList) = None"
    by (simp add: lookup_def emptyStore_def)
  have h4: "countingRun projectsList (db (world0 (Some emptyStore))) = ((200, listing), 1)"
    by (simp add: countingRun_def world0_def)
  have h5: "success_of listing = Inr (Some (JBool True))" "Some (JBool True) \<noteq> Some (JBool False)"
    by (simp_all add: listing_def)
  have h6: "(3599::nat) < 3600" by simp
  have h7: "parseListing listingBody = Some listing"
    by (simp add: parseListing_def)
  note T = cache_aside [where JSON_parse = parseListing and failure = notFound
      and run = countingRun and req = projectsList and w = "world0 (Some emptyStore)",
      OF h1 h2 h3 h4 h5 stringify_listing h6 h7 stringify_listing refl refl]
  show ?thesis
    using T h1 key by (simp add: world0_def)
qed

section \<open>Invalidation by prefix\<close>

text \<open>
  A pattern made of a literal prefix and a final star matches exactly the keys that begin
  with the prefix.
\<close>

lemma glob_star [simp]: "glob [Star] s"
  by (induction s) auto

lemma stringmatch_prefix:
  "literal p \<Longrightarrow> stringmatch (p @ ''*'') s = prefix p s"
  unfolding stringmatch_def
proof (induction p arbitrary: s)
  case Nil
  then show ?case by simp
next
  case (Cons c p)
  then show ?case
    by (cases s) (auto simp: literal_def)
qed

text \<open>
  One \<^verbatim>\<open>invalidateCache\<close> on a store that accepts the commands: the keys that \<^verbatim>\<open>KEYS\<close> listed
  are gone, every other key is as before.
\<close>

lemma invalidateCache_healthy:
  assumes "redisClient w = Some rc" and "outages rc = []"
  shows "\<exists>rc'. redisClient (invalidateCache pattern w) = Some rc' \<and> outages rc' = [] \<and>
           now (invalidateCache pattern w) = now w \<and>
           (\<forall>t k. lookup t (entries rc') k =
              (if k \<in> fst ` {e \<in> set (entries rc). now w < snd (snd e) \<and> stringmatch pattern (fst e)}
               then None else lookup t (entries rc) k))"
  using assms
  by (auto simp: invalidateCache_def getRedisClient_def client_keys_def client_del_def
      command_healthy lookup_def map_of_filter_keys filter_empty_conv split: option.splits prod.splits)

lemma healthyD: "healthy w \<Longrightarrow> \<exists>rc. redisClient w = Some rc \<and> outages rc = []"
  by (auto simp: healthy_def split: option.splits)

lemma invalidateCache_effect:
  assumes "healthy w"
  shows "healthy (invalidateCache pattern w)"
    and "now (invalidateCache pattern w) = now w"
    and "db (invalidateCache pattern w) = db w"
    and "retrievable t k (invalidateCache pattern w) =
           (if k \<in> fst ` {e \<in> set (entries (the (redisClient w))). now w < snd (snd e) \<and> stringmatch pattern (fst e)}
            then None else retrievable t k w)"
proof -
  obtain rc where rc: "redisClient w = Some rc" "outages rc = []"
    using healthyD [OF assms] by blast
  obtain rc' where rc': "redisClient (invalidateCache pattern w) = Some rc'" "outages rc' = []"
    "now (invalidateCache pattern w) = now w"
    "\<And>t k. lookup t (entries rc') k =
              (if k \<in> fst ` {e \<in> set (entries rc). now w < snd (snd e) \<and> stringmatch pattern (fst e)}
               then None else lookup t (entries rc) k)"
    using invalidateCache_healthy [OF rc, of pattern] by blast
  show "healthy (invalidateCache pattern w)" using rc' by (simp add: healthy_def)
  show "now (invalidateCache pattern w) = now w" by (rule rc'(3))
  show "db (invalidateCache pattern w) = db w"
    using rc by (simp add: invalidateCache_def getRedisClient_def client_keys_def client_del_def
      command_healthy split: option.splits prod.splits)
  show "retrievable t k (invalidateCache pattern w) =
           (if k \<in> fst ` {e \<in> set (entries (the (redisClient w))). now w < snd (snd e) \<and> stringmatch pattern (fst e)}
            then None else retrievable t k w)"
    using rc rc' by (simp add: retrievable_def)
qed

lemma invalidateCache_purges:
  assumes "healthy w" and "stringmatch pattern k" and "now w \<le> t"
  shows "retrievable t k (invalidateCache pattern w) = None"
proof -
  obtain rc where rc: "redisClient w = Some rc" "outages rc = []"
    using healthyD [OF assms(1)] by blast
  show ?thesis
  proof (cases "k \<in> fst ` {e \<in> set (entries rc). now w < snd (snd e) \<and> stringmatch pattern (fst e)}")
    case True
    then show ?thesis using invalidateCache_effect(4) [OF assms(1)] rc by simp
  next
    case False
    have "lookup t (entries rc) k = None"
    proof (cases "map_of (entries rc) k")
      case None
      then show ?thesis by (simp add: lookup_def)
    next
      case (Some ve)
      obtain v ex where ve: "ve = (v, ex)" by (cases ve)
      have "(k, v, ex) \<in> set (entries rc)" using Some ve by (simp add: map_of_SomeD)
      then have "\<not> now w < ex" using False assms(2) by force
      then show ?thesis using Some ve assms(3) by (simp add: lookup_def)
    qed
    then show ?thesis using invalidateCache_effect(4) [OF assms(1)] rc False
      by (simp add: retrievable_def)
  qed
qed

lemma invalidateCache_stays_purged:
  assumes "healthy w" and "retrievable t k w = None"
  shows "retrievable t k (invalidateCache pattern w) = None"
  using invalidateCache_effect(4) [OF assms(1)] assms(2) by simp

text \<open>The \<^verbatim>\<open>KEYS\<close> commands that an invalidation issues, whatever the store answers.\<close>

lemma invalidateCache_keysIssued:
  assumes "redisClient w \<noteq> None"
  shows "keysIssued (trace (invalidateCache pattern w)) = keysIssued (trace w) @ [pattern] \<and>
         redisClient (invalidateCache pattern w) \<noteq> None"
proof -
  obtain r w1 where k: "client_keys pattern w = (r, w1)" by (cases "client_keys pattern w")
  have w1: "trace w1 = trace w @ [RedisKeys pattern]" "redisClient w1 \<noteq> None"
    using client_keys_trace [where p=pattern and w=w] assms k by simp_all
  show ?thesis
  proof (cases r)
    case (Inl e)
    then show ?thesis using assms k w1
      by (auto simp: invalidateCache_def getRedisClient_def)
  next
    case (Inr ks)
    obtain r2 w2 where d: "client_del ks w1 = (r2, w2)" by (cases "client_del ks w1")
    have w2: "trace w2 = trace w @ [RedisKeys pattern, RedisDel ks]" "redisClient w2 \<noteq> None"
      using client_del_trace [where ks=ks and w=w1] w1 d by simp_all
    show ?thesis using assms k w1 Inr d w2
      by (cases r2) (auto simp: invalidateCache_def getRedisClient_def)
  qed
qed

lemma invalidateResourceCache_keysIssued:
  assumes "redisClient w \<noteq> None"
  shows "keysIssued (trace (invalidateResourceCache resource w)) =
           keysIssued (trace w) @ [''GET:/api/'' @ resource @ ''*''] @
             (if resource = ''blog'' then [''GET:/api/blog/categories*'', ''GET:/api/blog/tags*''] else []) @
             (if resource = ''skills'' then [''GET:/api/skills/categories*''] else [])"
  using assms
  by (simp add: invalidateResourceCache_def invalidateRouteCache_def Let_def
      invalidateCache_keysIssued)

text \<open>With no live key under the prefix only the \<^verbatim>\<open>KEYS\<close> command is issued.\<close>

lemma invalidateCache_noop:
  assumes "redisClient w = Some rc" and "outages rc = []"
    and "literal p" and "liveWithPrefix (now w) p (entries rc) = []"
  shows "invalidateCache (p @ ''*'') w = emit (RedisKeys (p @ ''*'')) w"
  using assms
  by (simp add: invalidateCache_def getRedisClient_def client_keys_def command_healthy
      stringmatch_prefix liveWithPrefix_def)

lemma literal_api: "literal resource \<Longrightarrow> literal (''GET:/api/'' @ resource)"
  by (simp add: literal_def)

lemma invalidateRouteCache_purges:
  assumes "healthy w" and "literal route" and "prefix (''GET:/api/'' @ route) k" and "now w \<le> t"
  shows "retrievable t k (invalidateRouteCache route w) = None"
proof -
  have "stringmatch ((''GET:/api/'' @ route) @ ''*'') k"
    using stringmatch_prefix [OF literal_api [OF assms(2)]] assms(3) by simp
  then show ?thesis
    using invalidateCache_purges [OF assms(1) _ assms(4)] by (simp add: invalidateRouteCache_def)
qed

lemma invalidateRouteCache_effect:
  assumes "healthy w"
  shows "healthy (invalidateRouteCache route w)"
    and "now (invalidateRouteCache route w) = now w"
    and "retrievable t k w = None \<Longrightarrow> retrievable t k (invalidateRouteCache route w) = None"
  using invalidateCache_effect(1,2) [OF assms] invalidateCache_stays_purged [OF assms]
  by (simp_all add: invalidateRouteCache_def)

lemma invalidateResourceCache_purges:
  assumes "healthy w" and "literal resource" and "prefix (''GET:/api/'' @ resource) k"
    and "now w \<le> t"
  shows "retrievable t k (invalidateResourceCache resource w) = None"
proof -
  let ?w1 = "invalidateRouteCache resource w"
  have p1: "retrievable t k ?w1 = None"
    by (rule invalidateRouteCache_purges [OF assms])
  have h1: "healthy ?w1"
    by (rule invalidateRouteCache_effect(1) [OF assms(1)])
  let ?w2 = "invalidateRouteCache ''blog/categories'' ?w1"
  have h2: "healthy ?w2" and p2: "retrievable t k ?w2 = None"
    using invalidateRouteCache_effect(1,3) [OF h1] p1 by simp_all
  let ?w3 = "invalidateRouteCache ''blog/tags'' ?w2"
  have p3: "retrievable t k ?w3 = None"
    using invalidateRouteCache_effect(3) [OF h2] p2 by simp
  have p4: "retrievable t k (invalidateRouteCache ''skills/categories'' ?w1) = None"
    using invalidateRouteCache_effect(3) [OF h1] p1 by simp
  show ?thesis
    using p1 p3 p4 by (auto simp: invalidateResourceCache_def Let_def)
qed

lemma liveWithPrefix_longer:
  "liveWithPrefix t p es = [] \<Longrightarrow> liveWithPrefix t (p @ q) es = []"
  by (auto simp: liveWithPrefix_def filter_empty_conv dest: append_prefixD)

lemma invalidateRouteCache_noop:
  assumes "redisClient w = Some rc" and "outages rc = []"
    and "literal route" and "liveWithPrefix (now w) (''GET:/api/'' @ route) (entries rc) = []"
  shows "invalidateRouteCache route w = emit (RedisKeys (''GET:/api/'' @ route @ ''*'')) w"
  using invalidateCache_noop [OF assms(1,2) literal_api [OF assms(3)] assms(4)]
  by (simp add: invalidateRouteCache_def)

lemma invalidateResourceCache_noop:
  assumes "redisClient w = Some rc" and "outages rc = []"
    and "literal resource" and "liveWithPrefix (now w) (''GET:/api/'' @ resource) (entries rc) = []"
  shows "redisClient (invalidateResourceCache resource w) = redisClient w \<and>
         delIssued (trace (invalidateResourceCache resource w)) = delIssued (trace w) \<and>
         db (invalidateResourceCache resource w) = db w"
proof -
  let ?w1 = "invalidateRouteCache resource w"
  have e1: "?w1 = emit (RedisKeys (''GET:/api/'' @ resource @ ''*'')) w"
    by (rule invalidateRouteCache_noop [OF assms])
  have c1: "redisClient ?w1 = Some rc" "now ?w1 = now w"
    using e1 assms(1) by simp_all
  show ?thesis
  proof (cases "resource = ''blog''")
    case True
    have l2: "liveWithPrefix (now ?w1) (''GET:/api/'' @ ''blog/categories'') (entries rc) = []"
      using liveWithPrefix_longer [OF assms(4), of "''/categories''"] True c1 by simp
    have e2: "invalidateRouteCache ''blog/categories'' ?w1 =
        emit (RedisKeys (''GET:/api/'' @ ''blog/categories'' @ ''*'')) ?w1"
      by (rule invalidateRouteCache_noop [OF c1(1) assms(2) _ l2]) (simp add: literal_def)
    let ?w2 = "invalidateRouteCache ''blog/categories'' ?w1"
    have c2: "redisClient ?w2 = Some rc" "now ?w2 = now w"
      using e2 c1 by simp_all
    have l3: "liveWithPrefix (now ?w2) (''GET:/api/'' @ ''blog/tags'') (entries rc) = []"
      using liveWithPrefix_longer [OF assms(4), of "''/tags''"] True c2 by simp
    have e3: "invalidateRouteCache ''blog/tags'' ?w2 =
        emit (RedisKeys (''GET:/api/'' @ ''blog/tags'' @ ''*'')) ?w2"
      by (rule invalidateRouteCache_noop [OF c2(1) assms(2) _ l3]) (simp add: literal_def)
    show ?thesis
      using True assms(1) e1 e2 e3 by (auto simp: invalidateResourceCache_def Let_def)
  next
    case False
    show ?thesis
    proof (cases "resource = ''skills''")
      case True
      have l2: "liveWithPrefix (now ?w1) (''GET:/api/'' @ ''skills/categories'') (entries rc) = []"
        using liveWithPrefix_longer [OF assms(4), of "''/categories''"] True c1 by simp
      have e2: "invalidateRouteCache ''skills/categories'' ?w1 =
          emit (RedisKeys (''GET:/api/'' @ ''skills/categories'' @ ''*'')) ?w1"
        by (rule invalidateRouteCache_noop [OF c1(1) assms(2) _ l2]) (simp add: literal_def)
      show ?thesis
        using True assms(1) e1 e2 by (auto simp: invalidateResourceCache_def Let_def)
    next
      case False
      with \<open>resource \<noteq> ''blog''\<close> show ?thesis
        using assms(1) by (simp add: invalidateResourceCache_def Let_def e1)
    qed
  qed
qed

text \<open>
  C3. In every state of a store that accepts the commands, after
  \<^verbatim>\<open>invalidateResourceCache\<close> no key that begins with \<^verbatim>\<open>GET:/api/<resource>\<close> is retrievable, now
  or later; for \<^verbatim>\<open>blog\<close> that includes the prefixes \<^verbatim>\<open>GET:/api/blog/categories\<close> and
  \<^verbatim>\<open>GET:/api/blog/tags\<close>, for \<^verbatim>\<open>skills\<close> the prefix \<^verbatim>\<open>GET:/api/skills/categories\<close>. The patterns
  purged are fixed by the resource name. When no live key matches, the store is left as
  it is and no \<^verbatim>\<open>DEL\<close> is issued.
\<close>

theorem invalidateResourceCache_complete:
  fixes w :: "'db world"
  assumes "redisClient w = Some rc" and "outages rc = []"
  shows
    "(\<forall>t k. literal resource \<and> now w \<le> t \<and> prefix (''GET:/api/'' @ resource) k \<longrightarrow>
        retrievable t k (invalidateResourceCache resource w) = None) \<and>
     (\<forall>t k. now w \<le> t \<and>
        (prefix ''GET:/api/blog'' k \<or> prefix ''GET:/api/blog/categories'' k \<or>
         prefix ''GET:/api/blog/tags'' k) \<longrightarrow>
        retrievable t k (invalidateResourceCache ''blog'' w) = None) \<and>
     (\<forall>t k. now w \<le> t \<and>
        (prefix ''GET:/api/skills'' k \<or> prefix ''GET:/api/skills/categories'' k) \<longrightarrow>
        retrievable t k (invalidateResourceCache ''skills'' w) = None) \<and>
     keysIssued (trace (invalidateResourceCache resource w)) =
       keysIssued (trace w) @ [''GET:/api/'' @ resource @ ''*''] @
         (if resource = ''blog'' then [''GET:/api/blog/categories*'', ''GET:/api/blog/tags*''] else []) @
         (if resource = ''skills'' then [''GET:/api/skills/categories*''] else []) \<and>
     (literal resource \<and> liveWithPrefix (now w) (''GET:/api/'' @ resource) (entries rc) = [] \<longrightarrow>
        redisClient (invalidateResourceCache resource w) = redisClient w \<and>
        delIssued (trace (invalidateResourceCache resource w)) = delIssued (trace w) \<and>
        db (invalidateResourceCache resource w) = db w)"
proof -
  have h: "healthy w" using assms by (simp add: healthy_def)
  have blog: "retrievable t k (invalidateResourceCache ''blog'' w) = None"
    if "now w \<le> t" and "prefix ''GET:/api/blog'' k" for t k
    using invalidateResourceCache_purges [OF h, of "''blog''" k t] that by (simp add: literal_def)
  have skills: "retrievable t k (invalidateResourceCache ''skills'' w) = None"
    if "now w \<le> t" and "prefix ''GET:/api/skills'' k" for t k
    using invalidateResourceCache_purges [OF h, of "''skills''" k t] that by (simp add: literal_def)
  have sub: "prefix ''GET:/api/blog'' k"
    if "prefix ''GET:/api/blog/categories'' k \<or> prefix ''GET:/api/blog/tags'' k" for k
    using that append_prefixD [of "''GET:/api/blog''" "''/categories''" k]
      append_prefixD [of "''GET:/api/blog''" "''/tags''" k] by auto
  have sub2: "prefix ''GET:/api/skills'' k" if "prefix ''GET:/api/skills/categories'' k" for k
    using that append_prefixD [of "''GET:/api/skills''" "''/categories''" k] by auto
  show ?thesis
    using invalidateResourceCache_purges [OF h, of resource]
      blog skills sub sub2
      invalidateResourceCache_keysIssued [of w resource]
      invalidateResourceCache_noop [OF assms, of resource] assms(1)
    by (intro conjI allI impI) auto
qed

text \<open>A store with two blog entries and one projects entry.\<close>

theorem invalidateResourceCache_complete_witness:
  "redisClient (world0 (Some blogStore)) = Some blogStore \<and> outages blogStore = [] \<and>
   retrievable 0 ''GET:/api/blog'' (world0 (Some blogStore)) = Some ''[1]'' \<and>
   retrievable 0 ''GET:/api/blog/tags'' (world0 (Some blogStore)) = Some ''[2]'' \<and>
   retrievable 0 ''GET:/api/blog'' (invalidateResourceCache ''blog'' (world0 (Some blogStore))) = None \<and>
   retrievable 0 ''GET:/api/blog/tags'' (invalidateResourceCache ''blog'' (world0 (Some blogStore))) = None \<and>
   keysIssued (trace (invalidateResourceCache ''blog'' (world0 (Some blogStore)))) =
     [''GET:/api/blog*'', ''GET:/api/blog/categories*'', ''GET:/api/blog/tags*''] \<and>
   keysIssued (trace (invalidateResourceCache ''skills'' (world0 (Some blogStore)))) =
     [''GET:/api/skills*'', ''GET:/api/skills/categories*''] \<and>
   redisClient (invalidateResourceCache ''skills'' (world0 (Some blogStore))) = Some blogStore"
proof -
  have a: "redisClient (world0 (Some blogStore)) = Some blogStore" "outages blogStore = []"
    by (simp_all add: world0_def blogStore_def)
  have b: "retrievable 0 ''GET:/api/blog'' (world0 (Some blogStore)) = Some ''[1]''"
    "retrievable 0 ''GET:/api/blog/tags'' (world0 (Some blogStore)) = Some ''[2]''"
    by (simp_all add: retrievable_def world0_def blogStore_def lookup_def)
  note B = invalidateResourceCache_complete [OF a, where resource = "''blog''"]
  note S = invalidateResourceCache_complete [OF a, where resource = "''skills''"]
  have n: "now (world0 (Some blogStore)) = 0" "trace (world0 (Some blogStore)) = []"
    by (simp_all add: world0_def)
  have l: "literal ''skills''"
    "liveWithPrefix 0 (''GET:/api/'' @ ''skills'') (entries blogStore) = []"
    by (simp_all add: literal_def liveWithPrefix_def blogStore_def)
  have p: "prefix ''GET:/api/blog'' ''GET:/api/blog''" "prefix ''GET:/api/blog/tags'' ''GET:/api/blog/tags''"
    by simp_all
  have 1: "retrievable 0 ''GET:/api/blog'' (invalidateResourceCache ''blog'' (world0 (Some blogStore))) = None"
    using B [THEN conjunct2, THEN conjunct1, rule_format, of 0 "''GET:/api/blog''"] n p by simp
  have 2: "retrievable 0 ''GET:/api/blog/tags'' (invalidateResourceCache ''blog'' (world0 (Some blogStore))) = None"
    using B [THEN conjunct2, THEN conjunct1, rule_format, of 0 "''GET:/api/blog/tags''"] n p by simp
  have 3: "keysIssued (trace (invalidateResourceCache ''blog'' (world0 (Some blogStore)))) =
     [''GET:/api/blog*'', ''GET:/api/blog/categories*'', ''GET:/api/blog/tags*'']"
    using B n by simp
  have 4: "keysIssued (trace (invalidateResourceCache ''skills'' (world0 (Some blogStore)))) =
     [''GET:/api/skills*'', ''GET:/api/skills/categories*'']"
    using S n by simp
  have 5: "redisClient (invalidateResourceCache ''skills'' (world0 (Some blogStore))) = Some blogStore"
    using S l n a by simp
  show ?thesis using a b 1 2 3 4 5 by simp
qed

section \<open>The order of write and invalidation\<close>





lemma redisClient_invalidateRouteCache:
  "redisClient w \<noteq> None \<Longrightarrow> redisClient (invalidateRouteCache route w) \<noteq> None"
  using invalidateCache_keysIssued [of w] by (simp add: invalidateRouteCache_def)







lemma dbWrites_append [simp]: "dbWrites (xs @ ys) = dbWrites xs @ dbWrites ys"
  by (induction xs rule: dbWrites.induct) simp_all




lemma settle_expressJson:
  "\<exists>es. trace (settle (expressJson st data w)) = trace w @ es \<and> dbWrites es = [] \<and>
     keysIssued es = [] \<and> delIssued es = [] \<and> invalidationFollowsWrite es \<and>
     redisClient (settle (expressJson st data w)) = redisClient w \<and>
     (es = [] \<or> (\<exists>b. es = [Send st b]))"
  by (cases "JSON_stringify data") (auto simp: expressJson_def settle_def)

lemma catch_quiet:
  "\<exists>es. trace (catchServerError msg expressResponse e w) = trace w @ es \<and> dbWrites es = [] \<and>
     keysIssued es = [] \<and> delIssued es = [] \<and> invalidationFollowsWrite es \<and>
     redisClient (catchServerError msg expressResponse e w) = redisClient w"
  "\<exists>es. trace (catchValidation msg expressResponse e w) = trace w @ es \<and> dbWrites es = [] \<and>
     keysIssued es = [] \<and> delIssued es = [] \<and> invalidationFollowsWrite es \<and>
     redisClient (catchValidation msg expressResponse e w) = redisClient w"
  "\<exists>es. trace (catchDuplicate msg expressResponse e w) = trace w @ es \<and> dbWrites es = [] \<and>
     keysIssued es = [] \<and> delIssued es = [] \<and> invalidationFollowsWrite es \<and>
     redisClient (catchDuplicate msg expressResponse e w) = redisClient w"
  using settle_expressJson [of 500 "failed msg" w]
    settle_expressJson [of 400 "validationFailed ms" w for ms]
    settle_expressJson [of 400 "failed ''Skill with this name already exists''" w]
  by (auto simp: catchServerError_def catchValidation_def catchDuplicate_def expressResponse_def
      split: error.splits)

lemma quietCatch_routes [simp]:
  "quietCatch (catchServerError msg expressResponse)"
  "quietCatch (catchValidation msg expressResponse)"
  "quietCatch (catchDuplicate msg expressResponse)"
  unfolding quietCatch_def using catch_quiet by blast+






lemma expressResponse_simps [simp]:
  "json expressResponse = expressJson" "statusCode expressResponse = 200"
  by (simp_all add: expressResponse_def)












text \<open>The slug loop returns the first free slug: with \<^verbatim>\<open>a\<close> taken, \<^verbatim>\<open>a-1\<close>.\<close>

lemma uniqueSlug_taken_once:
  "uniqueSlug (\<lambda>q d. Inr (if q = JObj [(''slug'', JStr ''a'')] then Some doc else None))
     d ''a'' ''a'' 1 = Some (Inr ''a-1'')"
  by (simp add: uniqueSlug.simps decimal.simps digit_def)



end
